theory Spec2Isabelle
  imports Complex_Main "HOL-Library.Word"
begin

section \<open>Agent task dispatcher of the backend: \<^verbatim>\<open>be/src/agent/task_worker_pool.cpp\<close>\<close>

text \<open>
  The development embeds \<^verbatim>\<open>TaskWorkerPool\<close> shallowly. The class statics (the signature
  registry, the per-user counters, the report version) and the task deque of every pool
  instance are the fields of one state record that each operation takes and returns.
  The storage engine and the master are outside the file: what they answer to a call is
  an argument of the operation that makes the call. The production build is modelled
  (\<^verbatim>\<open>BE_TEST\<close> undefined).
\<close>

subsection \<open>Enumerations and requests\<close>

text \<open>
  \<^verbatim>\<open>TaskWorkerType\<close> is the enumeration \<^verbatim>\<open>TaskWorkerPool::start\<close> switches on; its
  declaration is in the header, its members are read off the \<^verbatim>\<open>case\<close> labels.
\<close>

datatype TaskWorkerType =
    CREATE_TABLE | DROP_TABLE | PUSH | REALTIME_PUSH | PUBLISH_VERSION | CLEAR_ALTER_TASK
  | CLEAR_TRANSACTION_TASK | DELETE | ALTER_TABLE | CLONE | STORAGE_MEDIUM_MIGRATE
  | CHECK_CONSISTENCY | REPORT_TASK | REPORT_DISK_STATE | REPORT_OLAP_TABLE | UPLOAD
  | DOWNLOAD | MAKE_SNAPSHOT | RELEASE_SNAPSHOT | MOVE | RECOVER_TABLET

text \<open>
  Modelled from the spec: the Thrift enumeration \<^verbatim>\<open>TTaskType\<close> (generated code, not part of
  the file). The file itself names \<^verbatim>\<open>PUSH\<close>, \<^verbatim>\<open>SCHEMA_CHANGE\<close> and \<^verbatim>\<open>ROLLUP\<close>; the other
  members are the task kinds the specification lists. The members that share a name with
  a \<^verbatim>\<open>TaskWorkerType\<close> are written qualified below.
\<close>

datatype TTaskType =
    CREATE | DROP | PUSH | CLONE | STORAGE_MEDIUM_MIGRATE | ROLLUP | SCHEMA_CHANGE | DELETE
  | MAKE_SNAPSHOT | RELEASE_SNAPSHOT | CHECK_CONSISTENCY | UPLOAD | DOWNLOAD | MOVE
  | REALTIME_PUSH | PUBLISH_VERSION | CLEAR_ALTER_TASK | CLEAR_TRANSACTION_TASK
  | RECOVER_TABLET

datatype TPriority = NORMAL | HIGH

datatype TStatusCode = OK | ANALYSIS_ERROR | RUNTIME_ERROR

text \<open>
  The engine's and the agent's status codes: the members the file tests for, and one
  constructor for every other code.
\<close>

datatype OLAPStatus = OLAP_SUCCESS | OLAP_ERR_TABLE_NOT_FOUND | OLAP_ERR_OTHER int

datatype AgentStatus =
    DORIS_SUCCESS | DORIS_ERROR | DORIS_TASK_REQUEST_ERROR | DORIS_PUSH_HAD_LOADED
  | DORIS_CREATE_TABLE_EXIST | DORIS_INTERNAL_ERROR | DORIS_OTHER int

type_synonym TTabletId = "64 word"

text \<open>
  \<^verbatim>\<open>TAgentTaskRequest\<close>: the fields the dispatcher itself reads. An optional Thrift field
  is an \<open>option\<close>: \<open>None\<close> when its \<^verbatim>\<open>__isset\<close> flag is false. \<open>resource_info\<close> holds
  \<^verbatim>\<open>resource_info.user\<close>, \<open>snapshot_list_files\<close> is \<^verbatim>\<open>snapshot_req.__isset.list_files\<close>. The kind-specific payloads are handed to the engine unread and
  are not represented.
\<close>

record TAgentTaskRequest =
  task_type :: TTaskType
  signature :: "64 word"
  priority :: "TPriority option"
  resource_info :: "string option"
  snapshot_list_files :: bool

text \<open>
  \<^verbatim>\<open>TFinishTaskRequest\<close>: every field is optional in the Thrift struct and is set by a
  \<^verbatim>\<open>__set_\<close> call. A tablet info is represented by its tablet id. The backend identity,
  the error messages and the payload fields no dispatcher decision depends on (request
  version, checksum, snapshot path and files, tablet files, downloaded tablet ids) are
  left out.
\<close>

record TFinishTaskRequest =
  fin_task_type :: "TTaskType option"
  fin_signature :: "64 word option"
  fin_status_code :: "TStatusCode option"
  fin_report_version :: "64 word option"
  fin_finish_tablet_infos :: "TTabletId list option"
  fin_error_tablet_ids :: "TTabletId list option"

definition empty_finish_task_request :: TFinishTaskRequest where
  "empty_finish_task_request =
     \<lparr>fin_task_type = None, fin_signature = None, fin_status_code = None,
      fin_report_version = None, fin_finish_tablet_infos = None,
      fin_error_tablet_ids = None\<rparr>"

text \<open>
  What a worker does that the outside can see, in the order it happens: each finish RPC
  attempt with its request, each report RPC (a tablet report with the report version it
  carries), each \<^verbatim>\<open>publish_version\<close> call with the error-tablet vector it is handed, each
  \<^verbatim>\<open>sleep\<close> with its argument, and each \<^verbatim>\<open>notify\<close> of a pool's condition variable.
\<close>

datatype report_kind = TaskReport | DiskReport | TabletReport "64 word"

datatype event =
    FinishTaskRpc TFinishTaskRequest
  | ReportRpc report_kind
  | PublishVersionCall "TTabletId list"
  | Sleep nat
  | Notify TaskWorkerType

subsection \<open>The dispatcher state\<close>

text \<open>
  The statics of \<^verbatim>\<open>TaskWorkerPool\<close> and the deque \<^verbatim>\<open>_tasks\<close> of each pool instance (one
  per worker type). A \<^verbatim>\<open>std::map\<close> read with \<^verbatim>\<open>operator[]\<close> is a total function: the entry
  that \<^verbatim>\<open>operator[]\<close> creates on a miss is value-initialised, so a key that was never
  written reads as the empty set or as zero. The counters are \<^verbatim>\<open>uint32_t\<close> and wrap;
  \<^verbatim>\<open>_s_report_version\<close> is an \<^verbatim>\<open>atomic_ulong\<close>, 64 bits wide.
\<close>

record agent_state =
  s_report_version :: "64 word"
  s_task_signatures :: "TTaskType \<Rightarrow> 64 word set"
  s_running_task_user_count :: "TTaskType \<Rightarrow> string \<Rightarrow> 32 word"
  s_total_task_user_count :: "TTaskType \<Rightarrow> string \<Rightarrow> 32 word"
  s_total_task_count :: "TTaskType \<Rightarrow> 32 word"
  tasks :: "TaskWorkerType \<Rightarrow> TAgentTaskRequest list"
  s_worker_count :: "32 word"
  trace :: "event list"

definition initial_state :: "64 word \<Rightarrow> agent_state" where
  "initial_state start_version =
     \<lparr>s_report_version = start_version,
      s_task_signatures = (\<lambda>_. {}),
      s_running_task_user_count = (\<lambda>_ _. 0),
      s_total_task_user_count = (\<lambda>_ _. 0),
      s_total_task_count = (\<lambda>_. 0),
      tasks = (\<lambda>_. []),
      s_worker_count = 0,
      trace = []\<rparr>"

definition emit :: "event \<Rightarrow> agent_state \<Rightarrow> agent_state" where
  "emit e st = st\<lparr>trace := trace st @ [e]\<rparr>"

subsection \<open>The signature registry\<close>

text \<open>
  \<^verbatim>\<open>_record_task_info\<close>: the returned flag and the new state. A signature already in the
  set of its type is refused and nothing is written; otherwise it is inserted and, for
  the type \<^verbatim>\<open>PUSH\<close> only, the two totals are incremented.
\<close>

definition record_task_info ::
  "TTaskType \<Rightarrow> 64 word \<Rightarrow> string \<Rightarrow> agent_state \<Rightarrow> bool \<times> agent_state" where
  "record_task_info ttype sig usr st =
     (if sig \<in> s_task_signatures st ttype then (False, st)
      else
        (let st1 = st\<lparr>s_task_signatures :=
                        (s_task_signatures st)(ttype := insert sig (s_task_signatures st ttype))\<rparr>
         in if ttype = TTaskType.PUSH then
              (True,
               st1\<lparr>s_total_task_user_count :=
                      (s_total_task_user_count st1)
                        (ttype := (s_total_task_user_count st1 ttype)
                                    (usr := s_total_task_user_count st1 ttype usr + 1)),
                    s_total_task_count :=
                      (s_total_task_count st1)(ttype := s_total_task_count st1 ttype + 1)\<rparr>)
            else (True, st1)))"

text \<open>
  \<^verbatim>\<open>_remove_task_info\<close>: the signature is erased; for the type \<^verbatim>\<open>PUSH\<close> only, the two
  totals and the running count of the user are decremented (unsigned, so below zero they
  wrap).
\<close>

definition remove_task_info ::
  "TTaskType \<Rightarrow> 64 word \<Rightarrow> string \<Rightarrow> agent_state \<Rightarrow> agent_state" where
  "remove_task_info ttype sig usr st =
     (let st1 = st\<lparr>s_task_signatures :=
                     (s_task_signatures st)(ttype := s_task_signatures st ttype - {sig})\<rparr>
      in if ttype = TTaskType.PUSH then
           st1\<lparr>s_total_task_user_count :=
                  (s_total_task_user_count st1)
                    (ttype := (s_total_task_user_count st1 ttype)
                                (usr := s_total_task_user_count st1 ttype usr - 1)),
                s_total_task_count :=
                  (s_total_task_count st1)(ttype := s_total_task_count st1 ttype - 1),
                s_running_task_user_count :=
                  (s_running_task_user_count st1)
                    (ttype := (s_running_task_user_count st1 ttype)
                                (usr := s_running_task_user_count st1 ttype usr - 1))\<rparr>
         else st1)"

text \<open>
  \<^verbatim>\<open>submit_task\<close> on the pool \<open>pool\<close>: the user is \<^verbatim>\<open>resource_info.user\<close> when the field is
  set and the empty string otherwise; an admitted task goes to the back of the pool's
  deque and one waiter is notified.
\<close>

definition submit_task :: "TaskWorkerType \<Rightarrow> TAgentTaskRequest \<Rightarrow> agent_state \<Rightarrow> agent_state" where
  "submit_task pool task st =
     (let usr = (case resource_info task of Some u \<Rightarrow> u | None \<Rightarrow> [])
      in case record_task_info (task_type task) (signature task) usr st of
           (True, st1) \<Rightarrow>
             emit (Notify pool) (st1\<lparr>tasks := (tasks st1)(pool := tasks st1 pool @ [task])\<rparr>)
         | (False, st1) \<Rightarrow> st1)"

subsection \<open>The rates of the fair-share selector\<close>

text \<open>
  \<^verbatim>\<open>_get_next_task_index\<close> computes both rates in \<^verbatim>\<open>double\<close> (an unsigned or signed 32-bit
  integer times \<^verbatim>\<open>1.0\<close>, divided by a 32-bit integer), stores each in a \<^verbatim>\<open>float\<close> and
  compares the two floats. A floating-point value is a NaN, an infinity or a rational;
  the two zeros compare equal and are not told apart. Rounding is to nearest, ties to
  even, as IEEE 754 binary64 and binary32 arithmetic does on the build's targets. A
  quotient of two 32-bit integers and its single-precision rounding lie between
  \<open>2\<^sup>-\<^sup>3\<^sup>2\<close> and \<open>2\<^sup>3\<^sup>2\<close> in magnitude, far from overflow and from the subnormal
  range, so the exponent search below never runs out of steps.
\<close>

datatype fp = NaN | PInf | NInf | Fin rat

definition round_nearest_even :: "rat \<Rightarrow> int" where
  "round_nearest_even q =
     (let f = \<lfloor>q\<rfloor>; r = q - of_int f
      in if r < 1 / 2 then f else if 1 / 2 < r then f + 1 else if even f then f else f + 1)"

primrec exponent_up :: "nat \<Rightarrow> rat \<Rightarrow> int" where
  "exponent_up 0 q = 0"
| "exponent_up (Suc n) q = (if q < 2 then 0 else 1 + exponent_up n (q / 2))"

primrec exponent_down :: "nat \<Rightarrow> rat \<Rightarrow> int" where
  "exponent_down 0 q = 0"
| "exponent_down (Suc n) q = (if 1 \<le> q then 0 else exponent_down n (q * 2) - 1)"

text \<open>The \<open>e\<close> with \<open>2\<^sup>e \<le> q < 2\<^sup>e\<^sup>+\<^sup>1\<close>, for a positive \<open>q\<close> within \<open>2\<^sup>-\<^sup>6\<^sup>4\<close> and \<open>2\<^sup>6\<^sup>4\<close>.\<close>

definition binary_exponent :: "rat \<Rightarrow> int" where
  "binary_exponent q = (if 1 \<le> q then exponent_up 64 q else exponent_down 64 q)"

definition scale2 :: "int \<Rightarrow> rat" where
  "scale2 k = (if 0 \<le> k then 2 ^ nat k else 1 / 2 ^ nat (- k))"

text \<open>Rounding to a significand of \<open>p\<close> bits.\<close>

definition round_to :: "nat \<Rightarrow> rat \<Rightarrow> rat" where
  "round_to p q =
     (if q = 0 then 0
      else
        (let k = int p - 1 - binary_exponent \<bar>q\<bar>
         in sgn q * of_int (round_nearest_even (\<bar>q\<bar> * scale2 k)) / scale2 k))"

text \<open>Division of two integer-valued doubles; the divisor zero is the positive zero.\<close>

definition double_div :: "rat \<Rightarrow> rat \<Rightarrow> fp" where
  "double_div a b =
     (if b = 0 then (if a = 0 then NaN else if 0 < a then PInf else NInf)
      else Fin (round_to 53 (a / b)))"

fun to_float :: "fp \<Rightarrow> fp" where
  "to_float (Fin q) = Fin (round_to 24 q)"
| "to_float x = x"

fun fp_le :: "fp \<Rightarrow> fp \<Rightarrow> bool" where
  "fp_le NaN y = False"
| "fp_le x NaN = False"
| "fp_le NInf y = True"
| "fp_le x PInf = True"
| "fp_le PInf y = False"
| "fp_le x NInf = False"
| "fp_le (Fin a) (Fin b) = (a \<le> b)"

text \<open>
  \<^verbatim>\<open>user_total_rate = _s_total_task_user_count[type][user] * 1.0 / _s_total_task_count[type]\<close>
  and
  \<^verbatim>\<open>user_running_rate = (_s_running_task_user_count[type][user] + 1) * 1.0 / thread_count\<close>:
  the sum is unsigned 32-bit and wraps, \<^verbatim>\<open>thread_count\<close> is an \<^verbatim>\<open>int32_t\<close>.
\<close>

definition user_total_rate :: "32 word \<Rightarrow> 32 word \<Rightarrow> fp" where
  "user_total_rate user_count all_count =
     to_float (double_div (of_nat (unat user_count)) (of_nat (unat all_count)))"

definition user_running_rate :: "32 word \<Rightarrow> 32 word \<Rightarrow> fp" where
  "user_running_rate running thread_count =
     to_float (double_div (of_nat (unat (running + 1))) (of_int (sint thread_count)))"

subsection \<open>The selector \<^verbatim>\<open>_get_next_task_index\<close>\<close>

text \<open>
  The \<^verbatim>\<open>for\<close> loop over the deque, from position \<open>i\<close> on. The loop's variables are
  \<^verbatim>\<open>user\<close> (assigned only when the task at hand has \<^verbatim>\<open>resource_info\<close> set, so it keeps
  the value of an earlier iteration otherwise) and \<^verbatim>\<open>improper_users\<close>. The result is the
  position the loop breaks at, if it breaks, and the final value of \<^verbatim>\<open>user\<close>. The loop
  counter is a \<open>nat\<close>: the deque is taken to hold fewer than \<open>2\<^sup>3\<^sup>2\<close> tasks.
\<close>

fun scan_tasks ::
  "agent_state \<Rightarrow> 32 word \<Rightarrow> TPriority \<Rightarrow> TAgentTaskRequest list \<Rightarrow> nat \<Rightarrow> string \<Rightarrow> string set
     \<Rightarrow> nat option \<times> string" where
  "scan_tasks st thread_count prio [] i usr improper_users = (None, usr)"
| "scan_tasks st thread_count prio (task # rest) i usr improper_users =
     (let usr = (case resource_info task of Some u \<Rightarrow> u | None \<Rightarrow> usr)
      in if prio = HIGH then
           (if priority task = Some HIGH then (Some i, usr)
            else scan_tasks st thread_count prio rest (Suc i) usr improper_users)
         else if usr \<in> improper_users then
           scan_tasks st thread_count prio rest (Suc i) usr improper_users
         else if s_running_task_user_count st (task_type task) usr = 0
                 \<or> fp_le (user_running_rate (s_running_task_user_count st (task_type task) usr)
                             thread_count)
                          (user_total_rate (s_total_task_user_count st (task_type task) usr)
                             (s_total_task_count st (task_type task)))
         then (Some i, usr)
         else scan_tasks st thread_count prio rest (Suc i) usr (insert usr improper_users))"

definition incr_running :: "TTaskType \<Rightarrow> string \<Rightarrow> agent_state \<Rightarrow> agent_state" where
  "incr_running ttype usr st =
     st\<lparr>s_running_task_user_count :=
          (s_running_task_user_count st)
            (ttype := (s_running_task_user_count st ttype)
                        (usr := s_running_task_user_count st ttype usr + 1))\<rparr>"

text \<open>
  The whole function. \<^verbatim>\<open>index\<close> is an \<^verbatim>\<open>int32_t\<close> returned as \<^verbatim>\<open>uint32_t\<close>: the result is
  the 32-bit word, \<open>-1\<close> being the word of all ones. With no position chosen a \<^verbatim>\<open>HIGH\<close>
  caller gets \<open>-1\<close> and nothing is written; any other caller falls back to position 0,
  with the user of \<^verbatim>\<open>tasks[0]\<close>. Reading \<^verbatim>\<open>tasks[0]\<close> of an empty deque is undefined
  behaviour, the result \<open>None\<close>.
\<close>

definition get_next_task_index ::
  "32 word \<Rightarrow> TAgentTaskRequest list \<Rightarrow> TPriority \<Rightarrow> agent_state \<Rightarrow> (32 word \<times> agent_state) option" where
  "get_next_task_index thread_count queue prio st =
     (case scan_tasks st thread_count prio queue 0 [] {} of
        (Some i, usr) \<Rightarrow> Some (word_of_nat i, incr_running (task_type (queue ! i)) usr st)
      | (None, usr) \<Rightarrow>
          if prio = HIGH then Some (- 1, st)
          else
            (case queue of
               [] \<Rightarrow> None
             | task0 # rest \<Rightarrow>
                 Some (0, incr_running (task_type task0)
                            (case resource_info task0 of Some u \<Rightarrow> u | None \<Rightarrow> []) st)))"

subsection \<open>Taking a task off a pool's deque\<close>

text \<open>The configuration values the modelled code reads (all \<^verbatim>\<open>int32_t\<close>).\<close>

record config =
  push_worker_count_normal_priority :: "32 word"
  push_worker_count_high_priority :: "32 word"
  sleep_one_second :: "32 word"
  report_task_interval_seconds :: "32 word"

text \<open>
  What the locked section at the head of a worker's loop comes to: the thread waits on
  the condition variable (the deque is empty, nothing changes), or it leaves without a
  task, or it leaves with a task and, in the push callback, the task's user.
\<close>

datatype dequeued =
    Waiting
  | Undefined
  | NoTask agent_state
  | Picked TAgentTaskRequest string agent_state

text \<open>
  The callbacks other than the push callback: \<^verbatim>\<open>_tasks.front()\<close>, \<^verbatim>\<open>_tasks.pop_front()\<close>.
  They pass the empty string as user to \<^verbatim>\<open>_remove_task_info\<close>.
\<close>

definition pop_front :: "TaskWorkerType \<Rightarrow> agent_state \<Rightarrow> dequeued" where
  "pop_front pool st =
     (case tasks st pool of
        [] \<Rightarrow> Waiting
      | agent_task_req # rest \<Rightarrow> Picked agent_task_req [] (st\<lparr>tasks := (tasks st)(pool := rest)\<rparr>))"

text \<open>
  The push callback elects its priority once, when the thread starts: the first
  \<^verbatim>\<open>push_worker_count_high_priority\<close> threads (counted by a function-local static) are
  \<^verbatim>\<open>HIGH\<close>. The comparison is between a \<^verbatim>\<open>uint32_t\<close> and an \<^verbatim>\<open>int32_t\<close>, hence unsigned.
\<close>

definition elect_priority :: "config \<Rightarrow> agent_state \<Rightarrow> TPriority \<times> agent_state" where
  "elect_priority cfg st =
     (if s_worker_count st < push_worker_count_high_priority cfg
      then (HIGH, st\<lparr>s_worker_count := s_worker_count st + 1\<rparr>)
      else (NORMAL, st))"

text \<open>
  The \<^verbatim>\<open>do { ... } while (0)\<close> block of the push callback. A negative index notifies the
  condition variable and leaves the deque alone; the thread then sleeps one second and
  starts over. Otherwise the task at the index is copied, its user read (a fresh, empty
  string when \<^verbatim>\<open>resource_info\<close> is not set) and the task erased from the deque.
\<close>

definition push_take :: "config \<Rightarrow> TaskWorkerType \<Rightarrow> TPriority \<Rightarrow> agent_state \<Rightarrow> dequeued" where
  "push_take cfg pool prio st =
     (if tasks st pool = [] then Waiting
      else
        (case get_next_task_index
                (push_worker_count_normal_priority cfg + push_worker_count_high_priority cfg)
                (tasks st pool) prio st of
           None \<Rightarrow> Undefined
         | Some (index, st1) \<Rightarrow>
             if sint index < 0 then NoTask (emit (Sleep 1) (emit (Notify pool) st1))
             else
               (let i = nat (sint index);
                    agent_task_req = tasks st1 pool ! i;
                    usr = (case resource_info agent_task_req of Some u \<Rightarrow> u | None \<Rightarrow> [])
                in Picked agent_task_req usr
                     (st1\<lparr>tasks := (tasks st1)
                            (pool := take i (tasks st1 pool) @ drop (Suc i) (tasks st1 pool))\<rparr>))))"

subsection \<open>The engine and the master, as seen from a worker\<close>

text \<open>
  What the storage engine, the snapshot loader and the tablet manager answer to the calls
  of one worker iteration. \<open>publish_version_result n\<close> is the answer to the call made
  with \<^verbatim>\<open>retry_time = n\<close>: the status and the tablet ids the engine pushes onto the
  vector it is handed.
\<close>

record engine =
  create_tablet_status :: OLAPStatus
  drop_tablet_status :: OLAPStatus
  schema_change_status :: OLAPStatus
  report_tablet_info_status :: OLAPStatus
  new_tablet_info :: TTabletId
  batch_load_status :: AgentStatus
  batch_load_tablet_infos :: "TTabletId list"
  publish_version_result :: "nat \<Rightarrow> OLAPStatus \<times> TTabletId list"
  clear_alter_status :: OLAPStatus
  clone_status :: AgentStatus
  clone_tablet_infos :: "TTabletId list"
  storage_migration_status :: OLAPStatus
  checksum_status :: OLAPStatus
  upload_ok :: bool
  download_ok :: bool
  make_snapshot_status :: OLAPStatus
  scan_dir_ok :: bool
  release_snapshot_status :: OLAPStatus
  get_tablet_found :: bool
  loader_move_ok :: bool
  recover_tablet_status :: OLAPStatus
  report_all_tablets_info_status :: OLAPStatus

text \<open>
  The master: the transport status of the finish RPC made with \<^verbatim>\<open>try_time = n\<close>, the
  transport status of a report RPC, and the port of \<^verbatim>\<open>_master_info\<close> (zero until the first
  heartbeat).
\<close>

record master =
  finish_task_answer :: "nat \<Rightarrow> AgentStatus"
  report_answer :: AgentStatus
  master_port :: "32 word"

definition TASK_FINISH_MAX_RETRY :: nat where
  "TASK_FINISH_MAX_RETRY = 3"

definition PUBLISH_VERSION_MAX_RETRY :: nat where
  "PUBLISH_VERSION_MAX_RETRY = 3"

subsection \<open>\<^verbatim>\<open>_finish_task\<close>\<close>

text \<open>
  The \<^verbatim>\<open>while (try_time < TASK_FINISH_MAX_RETRY)\<close> loop from a given \<^verbatim>\<open>try_time\<close>: an RPC
  attempt; on transport success the loop is left at once; otherwise \<^verbatim>\<open>try_time\<close> is
  incremented and the thread sleeps.
\<close>

function finish_task_loop ::
  "config \<Rightarrow> master \<Rightarrow> TFinishTaskRequest \<Rightarrow> nat \<Rightarrow> agent_state \<Rightarrow> agent_state" where
  "finish_task_loop cfg m finish_task_request try_time st =
     (if try_time < TASK_FINISH_MAX_RETRY then
        (let st1 = emit (FinishTaskRpc finish_task_request) st
         in if finish_task_answer m try_time = DORIS_SUCCESS then st1
            else finish_task_loop cfg m finish_task_request (try_time + 1)
                   (emit (Sleep (unat (sleep_one_second cfg))) st1))
      else st)"
  by pat_completeness auto
termination
  by (relation "measure (\<lambda>(cfg, m, r, try_time, st). TASK_FINISH_MAX_RETRY - try_time)") auto

declare finish_task_loop.simps [simp del]

definition finish_task :: "config \<Rightarrow> master \<Rightarrow> TFinishTaskRequest \<Rightarrow> agent_state \<Rightarrow> agent_state" where
  "finish_task cfg m finish_task_request st = finish_task_loop cfg m finish_task_request 0 st"

definition incr_report_version :: "agent_state \<Rightarrow> agent_state" where
  "incr_report_version st = st\<lparr>s_report_version := s_report_version st + 1\<rparr>"

subsection \<open>The worker callbacks, after the task is taken\<close>

text \<open>
  Each definition is the part of the callback's loop body that follows the locked
  section: the engine call, the finish request, \<^verbatim>\<open>_finish_task\<close>, \<^verbatim>\<open>_remove_task_info\<close>.
\<close>

definition create_tablet_execute ::
  "config \<Rightarrow> engine \<Rightarrow> master \<Rightarrow> TAgentTaskRequest \<Rightarrow> agent_state \<Rightarrow> agent_state" where
  "create_tablet_execute cfg eng m agent_task_req st =
     (let create_status = create_tablet_status eng;
          status_code = (if create_status \<noteq> OLAP_SUCCESS then RUNTIME_ERROR else OK);
          st1 = (if create_status \<noteq> OLAP_SUCCESS then st else incr_report_version st);
          finish_task_request = empty_finish_task_request
            \<lparr>fin_report_version := Some (s_report_version st1),
             fin_task_type := Some (task_type agent_task_req),
             fin_signature := Some (signature agent_task_req),
             fin_status_code := Some status_code\<rparr>
      in remove_task_info (task_type agent_task_req) (signature agent_task_req) []
           (finish_task cfg m finish_task_request st1))"

text \<open>A drop that finds no tablet counts as done.\<close>

definition drop_tablet_execute ::
  "config \<Rightarrow> engine \<Rightarrow> master \<Rightarrow> TAgentTaskRequest \<Rightarrow> agent_state \<Rightarrow> agent_state" where
  "drop_tablet_execute cfg eng m agent_task_req st =
     (let drop_status = drop_tablet_status eng;
          status = (if drop_status \<noteq> OLAP_SUCCESS \<and> drop_status \<noteq> OLAP_ERR_TABLE_NOT_FOUND
                    then DORIS_ERROR else DORIS_SUCCESS);
          status_code = (if status \<noteq> DORIS_SUCCESS then RUNTIME_ERROR else OK);
          finish_task_request = empty_finish_task_request
            \<lparr>fin_task_type := Some (task_type agent_task_req),
             fin_signature := Some (signature agent_task_req),
             fin_status_code := Some status_code\<rparr>
      in remove_task_info (task_type agent_task_req) (signature agent_task_req) []
           (finish_task cfg m finish_task_request st))"

text \<open>\<^verbatim>\<open>_get_tablet_info\<close>.\<close>

definition get_tablet_info :: "engine \<Rightarrow> AgentStatus" where
  "get_tablet_info eng =
     (if report_tablet_info_status eng \<noteq> OLAP_SUCCESS then DORIS_ERROR else DORIS_SUCCESS)"

text \<open>
  \<^verbatim>\<open>_alter_tablet\<close>: the finish request it fills in and the new state. The report version
  is incremented as soon as the engine task has succeeded, before the new tablet's info
  is fetched.
\<close>

definition alter_tablet ::
  "engine \<Rightarrow> 64 word \<Rightarrow> TTaskType \<Rightarrow> agent_state \<Rightarrow> TFinishTaskRequest \<times> agent_state" where
  "alter_tablet eng sig ttype st =
     (let status0 = (if ttype = ROLLUP \<or> ttype = SCHEMA_CHANGE then DORIS_SUCCESS
                     else DORIS_TASK_REQUEST_ERROR);
          status1 = (if status0 = DORIS_SUCCESS
                     then (if schema_change_status eng \<noteq> OLAP_SUCCESS then DORIS_ERROR
                           else DORIS_SUCCESS)
                     else status0);
          st1 = (if status1 = DORIS_SUCCESS then incr_report_version st else st);
          req1 = empty_finish_task_request
            \<lparr>fin_report_version := Some (s_report_version st1),
             fin_task_type := Some ttype,
             fin_signature := Some sig\<rparr>;
          status2 = (if status1 = DORIS_SUCCESS then get_tablet_info eng else status1);
          finish_tablet_infos = (if status1 = DORIS_SUCCESS \<and> status2 = DORIS_SUCCESS
                                 then [new_tablet_info eng] else []);
          req2 = (if status2 = DORIS_SUCCESS
                  then req1\<lparr>fin_finish_tablet_infos := Some finish_tablet_infos,
                            fin_status_code := Some OK\<rparr>
                  else if status2 = DORIS_TASK_REQUEST_ERROR
                  then req1\<lparr>fin_status_code := Some ANALYSIS_ERROR\<rparr>
                  else req1\<lparr>fin_status_code := Some RUNTIME_ERROR\<rparr>)
      in (req2, st1))"

text \<open>
  The alter callback calls \<^verbatim>\<open>_alter_tablet\<close> for the types \<^verbatim>\<open>SCHEMA_CHANGE\<close> and
  \<^verbatim>\<open>ROLLUP\<close> only; for any other type the finish request stays default-constructed.
\<close>

definition alter_tablet_execute ::
  "config \<Rightarrow> engine \<Rightarrow> master \<Rightarrow> TAgentTaskRequest \<Rightarrow> agent_state \<Rightarrow> agent_state" where
  "alter_tablet_execute cfg eng m agent_task_req st =
     (let (finish_task_request, st1) =
            (if task_type agent_task_req = SCHEMA_CHANGE \<or> task_type agent_task_req = ROLLUP
             then alter_tablet eng (signature agent_task_req) (task_type agent_task_req) st
             else (empty_finish_task_request, st))
      in remove_task_info (task_type agent_task_req) (signature agent_task_req) []
           (finish_task cfg m finish_task_request st1))"

text \<open>
  The push callback, used by the pools \<^verbatim>\<open>PUSH\<close>, \<^verbatim>\<open>REALTIME_PUSH\<close> and \<^verbatim>\<open>DELETE\<close>. On
  \<^verbatim>\<open>DORIS_PUSH_HAD_LOADED\<close> the task is removed and the loop continues without a finish
  request. \<open>usr\<close> is the callback's local \<^verbatim>\<open>user\<close>.
\<close>

definition push_execute ::
  "config \<Rightarrow> engine \<Rightarrow> master \<Rightarrow> TAgentTaskRequest \<Rightarrow> string \<Rightarrow> agent_state \<Rightarrow> agent_state" where
  "push_execute cfg eng m agent_task_req usr st =
     (let status = batch_load_status eng
      in if status = DORIS_PUSH_HAD_LOADED then
           remove_task_info (task_type agent_task_req) (signature agent_task_req) usr st
         else
           (let req0 = empty_finish_task_request
                  \<lparr>fin_task_type := Some (task_type agent_task_req),
                   fin_signature := Some (signature agent_task_req)\<rparr>;
                st1 = (if status = DORIS_SUCCESS then incr_report_version st else st);
                req1 = (if status = DORIS_SUCCESS
                        then req0\<lparr>fin_status_code := Some OK,
                                  fin_finish_tablet_infos := Some (batch_load_tablet_infos eng)\<rparr>
                        else if status = DORIS_TASK_REQUEST_ERROR
                        then req0\<lparr>fin_status_code := Some ANALYSIS_ERROR\<rparr>
                        else req0\<lparr>fin_status_code := Some RUNTIME_ERROR\<rparr>);
                finish_task_request = req1\<lparr>fin_report_version := Some (s_report_version st1)\<rparr>
            in remove_task_info (task_type agent_task_req) (signature agent_task_req) usr
                 (finish_task cfg m finish_task_request st1)))"

text \<open>
  The retry loop of the publish callback from a given \<^verbatim>\<open>retry_time\<close>, with the current
  values of \<^verbatim>\<open>res\<close> and \<^verbatim>\<open>error_tablet_ids\<close>: the vector is cleared, the engine is called
  and pushes its error tablets onto it; on success the loop is left, otherwise
  \<^verbatim>\<open>retry_time\<close> is incremented and the thread sleeps one second.
\<close>

function publish_version_loop ::
  "engine \<Rightarrow> nat \<Rightarrow> OLAPStatus \<Rightarrow> TTabletId list \<Rightarrow> agent_state
     \<Rightarrow> (OLAPStatus \<times> TTabletId list) \<times> agent_state" where
  "publish_version_loop eng retry_time res error_tablet_ids st =
     (if retry_time < PUBLISH_VERSION_MAX_RETRY then
        (let cleared = [];
             st1 = emit (PublishVersionCall cleared) st;
             res1 = fst (publish_version_result eng retry_time);
             ids1 = cleared @ snd (publish_version_result eng retry_time)
         in if res1 = OLAP_SUCCESS then ((res1, ids1), st1)
            else publish_version_loop eng (retry_time + 1) res1 ids1 (emit (Sleep 1) st1))
      else ((res, error_tablet_ids), st))"
  by pat_completeness auto
termination
  by (relation "measure (\<lambda>(eng, retry_time, res, ids, st). PUBLISH_VERSION_MAX_RETRY - retry_time)")
    auto

declare publish_version_loop.simps [simp del]

definition publish_version_execute ::
  "config \<Rightarrow> engine \<Rightarrow> master \<Rightarrow> TAgentTaskRequest \<Rightarrow> agent_state \<Rightarrow> agent_state" where
  "publish_version_execute cfg eng m agent_task_req st =
     (let ((res, error_tablet_ids), st1) = publish_version_loop eng 0 OLAP_SUCCESS [] st;
          status_code = (if res \<noteq> OLAP_SUCCESS then RUNTIME_ERROR else OK);
          req0 = (if res \<noteq> OLAP_SUCCESS
                  then empty_finish_task_request\<lparr>fin_error_tablet_ids := Some error_tablet_ids\<rparr>
                  else empty_finish_task_request);
          finish_task_request = req0
            \<lparr>fin_status_code := Some status_code,
             fin_task_type := Some (task_type agent_task_req),
             fin_signature := Some (signature agent_task_req)\<rparr>
      in remove_task_info (task_type agent_task_req) (signature agent_task_req) []
           (finish_task cfg m finish_task_request st1))"

text \<open>
  The callbacks that differ only in the engine call and in how its answer becomes a
  status code: the finish request carries the type, the signature and the status.
\<close>

definition report_status ::
  "config \<Rightarrow> master \<Rightarrow> TAgentTaskRequest \<Rightarrow> TStatusCode \<Rightarrow> agent_state \<Rightarrow> agent_state" where
  "report_status cfg m agent_task_req status_code st =
     (let finish_task_request = empty_finish_task_request
            \<lparr>fin_status_code := Some status_code,
             fin_task_type := Some (task_type agent_task_req),
             fin_signature := Some (signature agent_task_req)\<rparr>
      in remove_task_info (task_type agent_task_req) (signature agent_task_req) []
           (finish_task cfg m finish_task_request st))"

definition clear_alter_task_execute ::
  "config \<Rightarrow> engine \<Rightarrow> master \<Rightarrow> TAgentTaskRequest \<Rightarrow> agent_state \<Rightarrow> agent_state" where
  "clear_alter_task_execute cfg eng m agent_task_req st =
     report_status cfg m agent_task_req
       (if clear_alter_status eng \<noteq> OLAP_SUCCESS then RUNTIME_ERROR else OK) st"

text \<open>The engine's \<^verbatim>\<open>clear_transaction_task\<close> returns nothing.\<close>

definition clear_transaction_task_execute ::
  "config \<Rightarrow> engine \<Rightarrow> master \<Rightarrow> TAgentTaskRequest \<Rightarrow> agent_state \<Rightarrow> agent_state" where
  "clear_transaction_task_execute cfg eng m agent_task_req st =
     report_status cfg m agent_task_req OK st"

definition clone_execute ::
  "config \<Rightarrow> engine \<Rightarrow> master \<Rightarrow> TAgentTaskRequest \<Rightarrow> agent_state \<Rightarrow> agent_state" where
  "clone_execute cfg eng m agent_task_req st =
     (let status = clone_status eng;
          req0 = empty_finish_task_request
            \<lparr>fin_task_type := Some (task_type agent_task_req),
             fin_signature := Some (signature agent_task_req)\<rparr>;
          finish_task_request =
            (if status \<noteq> DORIS_SUCCESS \<and> status \<noteq> DORIS_CREATE_TABLE_EXIST
             then req0\<lparr>fin_status_code := Some RUNTIME_ERROR\<rparr>
             else req0\<lparr>fin_finish_tablet_infos := Some (clone_tablet_infos eng),
                       fin_status_code := Some OK\<rparr>)
      in remove_task_info (task_type agent_task_req) (signature agent_task_req) []
           (finish_task cfg m finish_task_request st))"

definition storage_medium_migrate_execute ::
  "config \<Rightarrow> engine \<Rightarrow> master \<Rightarrow> TAgentTaskRequest \<Rightarrow> agent_state \<Rightarrow> agent_state" where
  "storage_medium_migrate_execute cfg eng m agent_task_req st =
     report_status cfg m agent_task_req
       (if storage_migration_status eng \<noteq> OLAP_SUCCESS then RUNTIME_ERROR else OK) st"

definition check_consistency_execute ::
  "config \<Rightarrow> engine \<Rightarrow> master \<Rightarrow> TAgentTaskRequest \<Rightarrow> agent_state \<Rightarrow> agent_state" where
  "check_consistency_execute cfg eng m agent_task_req st =
     report_status cfg m agent_task_req
       (if checksum_status eng \<noteq> OLAP_SUCCESS then RUNTIME_ERROR else OK) st"

definition upload_execute ::
  "config \<Rightarrow> engine \<Rightarrow> master \<Rightarrow> TAgentTaskRequest \<Rightarrow> agent_state \<Rightarrow> agent_state" where
  "upload_execute cfg eng m agent_task_req st =
     report_status cfg m agent_task_req (if \<not> upload_ok eng then RUNTIME_ERROR else OK) st"

definition download_execute ::
  "config \<Rightarrow> engine \<Rightarrow> master \<Rightarrow> TAgentTaskRequest \<Rightarrow> agent_state \<Rightarrow> agent_state" where
  "download_execute cfg eng m agent_task_req st =
     report_status cfg m agent_task_req (if \<not> download_ok eng then RUNTIME_ERROR else OK) st"

definition make_snapshot_execute ::
  "config \<Rightarrow> engine \<Rightarrow> master \<Rightarrow> TAgentTaskRequest \<Rightarrow> agent_state \<Rightarrow> agent_state" where
  "make_snapshot_execute cfg eng m agent_task_req st =
     report_status cfg m agent_task_req
       (if make_snapshot_status eng \<noteq> OLAP_SUCCESS then RUNTIME_ERROR
        else if snapshot_list_files agent_task_req \<and> \<not> scan_dir_ok eng then RUNTIME_ERROR
        else OK) st"

definition release_snapshot_execute ::
  "config \<Rightarrow> engine \<Rightarrow> master \<Rightarrow> TAgentTaskRequest \<Rightarrow> agent_state \<Rightarrow> agent_state" where
  "release_snapshot_execute cfg eng m agent_task_req st =
     report_status cfg m agent_task_req
       (if release_snapshot_status eng \<noteq> OLAP_SUCCESS then RUNTIME_ERROR else OK) st"

text \<open>\<^verbatim>\<open>_move_dir\<close>.\<close>

definition move_dir :: "engine \<Rightarrow> AgentStatus" where
  "move_dir eng =
     (if \<not> get_tablet_found eng then DORIS_TASK_REQUEST_ERROR
      else if \<not> loader_move_ok eng then DORIS_INTERNAL_ERROR
      else DORIS_SUCCESS)"

definition move_dir_execute ::
  "config \<Rightarrow> engine \<Rightarrow> master \<Rightarrow> TAgentTaskRequest \<Rightarrow> agent_state \<Rightarrow> agent_state" where
  "move_dir_execute cfg eng m agent_task_req st =
     report_status cfg m agent_task_req
       (if move_dir eng \<noteq> DORIS_SUCCESS then RUNTIME_ERROR else OK) st"

definition recover_tablet_execute ::
  "config \<Rightarrow> engine \<Rightarrow> master \<Rightarrow> TAgentTaskRequest \<Rightarrow> agent_state \<Rightarrow> agent_state" where
  "recover_tablet_execute cfg eng m agent_task_req st =
     report_status cfg m agent_task_req
       (if recover_tablet_status eng \<noteq> OLAP_SUCCESS then RUNTIME_ERROR else OK) st"

subsection \<open>The report loops\<close>

text \<open>
  One turn of each report loop. The task report sends the live signatures and sleeps.
  The disk and the tablet report wait for the first heartbeat (a master port other than
  zero); the tablet report stamps the request with the current report version, collects
  the tablets and, if that fails, skips the send. The waits on the engine's report
  notification leave the state alone.
\<close>

definition report_task_worker_turn :: "config \<Rightarrow> master \<Rightarrow> agent_state \<Rightarrow> agent_state" where
  "report_task_worker_turn cfg m st =
     emit (Sleep (unat (report_task_interval_seconds cfg))) (emit (ReportRpc TaskReport) st)"

definition report_disk_state_worker_turn :: "config \<Rightarrow> master \<Rightarrow> agent_state \<Rightarrow> agent_state" where
  "report_disk_state_worker_turn cfg m st =
     (if master_port m = 0 then emit (Sleep (unat (sleep_one_second cfg))) st
      else emit (ReportRpc DiskReport) st)"

definition report_tablet_worker_turn ::
  "config \<Rightarrow> engine \<Rightarrow> master \<Rightarrow> agent_state \<Rightarrow> agent_state" where
  "report_tablet_worker_turn cfg eng m st =
     (if master_port m = 0 then emit (Sleep (unat (sleep_one_second cfg))) st
      else
        (let report_version = s_report_version st
         in if report_all_tablets_info_status eng \<noteq> OLAP_SUCCESS then st
            else emit (ReportRpc (TabletReport report_version)) st))"

subsection \<open>\<^verbatim>\<open>TaskWorkerPool::start\<close>: the callback of each worker type\<close>

definition uses_push_callback :: "TaskWorkerType \<Rightarrow> bool" where
  "uses_push_callback pool =
     (pool = TaskWorkerType.PUSH \<or> pool = TaskWorkerType.REALTIME_PUSH
      \<or> pool = TaskWorkerType.DELETE)"

definition is_report_worker :: "TaskWorkerType \<Rightarrow> bool" where
  "is_report_worker pool =
     (pool = REPORT_TASK \<or> pool = REPORT_DISK_STATE \<or> pool = REPORT_OLAP_TABLE)"

text \<open>The locked section of the pool's callback; the report loops take no task.\<close>

definition worker_take :: "config \<Rightarrow> TaskWorkerType \<Rightarrow> TPriority \<Rightarrow> agent_state \<Rightarrow> dequeued" where
  "worker_take cfg pool prio st =
     (if uses_push_callback pool then push_take cfg pool prio st
      else if is_report_worker pool then Waiting
      else pop_front pool st)"

text \<open>The rest of the loop body of the pool's callback, for the task taken.\<close>

fun callback_execute ::
  "config \<Rightarrow> engine \<Rightarrow> master \<Rightarrow> TaskWorkerType \<Rightarrow> TAgentTaskRequest \<Rightarrow> string \<Rightarrow> agent_state
     \<Rightarrow> agent_state" where
  "callback_execute cfg eng m CREATE_TABLE req usr st = create_tablet_execute cfg eng m req st"
| "callback_execute cfg eng m DROP_TABLE req usr st = drop_tablet_execute cfg eng m req st"
| "callback_execute cfg eng m TaskWorkerType.PUSH req usr st = push_execute cfg eng m req usr st"
| "callback_execute cfg eng m TaskWorkerType.REALTIME_PUSH req usr st =
     push_execute cfg eng m req usr st"
| "callback_execute cfg eng m TaskWorkerType.PUBLISH_VERSION req usr st =
     publish_version_execute cfg eng m req st"
| "callback_execute cfg eng m TaskWorkerType.CLEAR_ALTER_TASK req usr st =
     clear_alter_task_execute cfg eng m req st"
| "callback_execute cfg eng m TaskWorkerType.CLEAR_TRANSACTION_TASK req usr st =
     clear_transaction_task_execute cfg eng m req st"
| "callback_execute cfg eng m TaskWorkerType.DELETE req usr st = push_execute cfg eng m req usr st"
| "callback_execute cfg eng m ALTER_TABLE req usr st = alter_tablet_execute cfg eng m req st"
| "callback_execute cfg eng m TaskWorkerType.CLONE req usr st = clone_execute cfg eng m req st"
| "callback_execute cfg eng m TaskWorkerType.STORAGE_MEDIUM_MIGRATE req usr st =
     storage_medium_migrate_execute cfg eng m req st"
| "callback_execute cfg eng m TaskWorkerType.CHECK_CONSISTENCY req usr st =
     check_consistency_execute cfg eng m req st"
| "callback_execute cfg eng m REPORT_TASK req usr st = st"
| "callback_execute cfg eng m REPORT_DISK_STATE req usr st = st"
| "callback_execute cfg eng m REPORT_OLAP_TABLE req usr st = st"
| "callback_execute cfg eng m TaskWorkerType.UPLOAD req usr st = upload_execute cfg eng m req st"
| "callback_execute cfg eng m TaskWorkerType.DOWNLOAD req usr st = download_execute cfg eng m req st"
| "callback_execute cfg eng m TaskWorkerType.MAKE_SNAPSHOT req usr st =
     make_snapshot_execute cfg eng m req st"
| "callback_execute cfg eng m TaskWorkerType.RELEASE_SNAPSHOT req usr st =
     release_snapshot_execute cfg eng m req st"
| "callback_execute cfg eng m TaskWorkerType.MOVE req usr st = move_dir_execute cfg eng m req st"
| "callback_execute cfg eng m TaskWorkerType.RECOVER_TABLET req usr st =
     recover_tablet_execute cfg eng m req st"

text \<open>One pass of a worker through its loop body, from the locked section on.\<close>

definition worker_iteration ::
  "config \<Rightarrow> engine \<Rightarrow> master \<Rightarrow> TaskWorkerType \<Rightarrow> TPriority \<Rightarrow> agent_state \<Rightarrow> agent_state" where
  "worker_iteration cfg eng m pool prio st =
     (case worker_take cfg pool prio st of
        Waiting \<Rightarrow> st
      | Undefined \<Rightarrow> st
      | NoTask st1 \<Rightarrow> st1
      | Picked req usr st1 \<Rightarrow> callback_execute cfg eng m pool req usr st1)"

subsection \<open>Workers running side by side\<close>

text \<open>
  Several workers are between their locked section and their \<^verbatim>\<open>_remove_task_info\<close> at
  the same time. A run of the dispatcher is a sequence of the steps that the locks make
  atomic: a submission; a worker of some pool, with its priority, passing its locked
  section; and a worker that holds a task finishing its loop body, with the engine's and
  the master's answers. The tasks held by workers are kept with their pool and the
  worker's local \<^verbatim>\<open>user\<close>.
\<close>

type_synonym in_flight = "(TaskWorkerType \<times> TAgentTaskRequest \<times> string) list"

datatype action =
    Submit TaskWorkerType TAgentTaskRequest
  | Take TaskWorkerType TPriority
  | Complete nat engine master

fun step :: "config \<Rightarrow> action \<Rightarrow> agent_state \<times> in_flight \<Rightarrow> agent_state \<times> in_flight" where
  "step cfg (Submit pool task) (st, fl) = (submit_task pool task st, fl)"
| "step cfg (Take pool prio) (st, fl) =
     (case worker_take cfg pool prio st of
        Waiting \<Rightarrow> (st, fl)
      | Undefined \<Rightarrow> (st, fl)
      | NoTask st1 \<Rightarrow> (st1, fl)
      | Picked req usr st1 \<Rightarrow> (st1, fl @ [(pool, req, usr)]))"
| "step cfg (Complete n eng m) (st, fl) =
     (if n < length fl
      then (case fl ! n of
              (pool, req, usr) \<Rightarrow>
                (callback_execute cfg eng m pool req usr st, take n fl @ drop (Suc n) fl))
      else (st, fl))"

fun run :: "config \<Rightarrow> action list \<Rightarrow> agent_state \<times> in_flight \<Rightarrow> agent_state \<times> in_flight" where
  "run cfg [] s = s"
| "run cfg (a # as) s = run cfg as (step cfg a s)"

subsection \<open>Reading a trace; sample inputs\<close>

fun is_finish_task_rpc :: "event \<Rightarrow> bool" where
  "is_finish_task_rpc (FinishTaskRpc r) = True"
| "is_finish_task_rpc e = False"

fun is_publish_version_call :: "event \<Rightarrow> bool" where
  "is_publish_version_call (PublishVersionCall ids) = True"
| "is_publish_version_call e = False"

text \<open>The key a task is registered under.\<close>

definition task_key :: "TAgentTaskRequest \<Rightarrow> TTaskType \<times> 64 word" where
  "task_key task = (task_type task, signature task)"

definition mk_task ::
  "TTaskType \<Rightarrow> 64 word \<Rightarrow> TPriority option \<Rightarrow> string option \<Rightarrow> TAgentTaskRequest" where
  "mk_task ttype sig prio usr =
     \<lparr>task_type = ttype, signature = sig, priority = prio, resource_info = usr,
      snapshot_list_files = False\<rparr>"

text \<open>The shipped defaults of the configuration values.\<close>

definition default_config :: config where
  "default_config =
     \<lparr>push_worker_count_normal_priority = 3, push_worker_count_high_priority = 3,
      sleep_one_second = 1, report_task_interval_seconds = 10\<rparr>"

text \<open>An engine every call of which succeeds, and one every call of which fails.\<close>

definition engine_all_ok :: engine where
  "engine_all_ok =
     \<lparr>create_tablet_status = OLAP_SUCCESS, drop_tablet_status = OLAP_SUCCESS,
      schema_change_status = OLAP_SUCCESS, report_tablet_info_status = OLAP_SUCCESS,
      new_tablet_info = 10001, batch_load_status = DORIS_SUCCESS,
      batch_load_tablet_infos = [10001], publish_version_result = (\<lambda>n. (OLAP_SUCCESS, [])),
      clear_alter_status = OLAP_SUCCESS, clone_status = DORIS_SUCCESS,
      clone_tablet_infos = [10001], storage_migration_status = OLAP_SUCCESS,
      checksum_status = OLAP_SUCCESS, upload_ok = True, download_ok = True,
      make_snapshot_status = OLAP_SUCCESS, scan_dir_ok = True,
      release_snapshot_status = OLAP_SUCCESS, get_tablet_found = True, loader_move_ok = True,
      recover_tablet_status = OLAP_SUCCESS, report_all_tablets_info_status = OLAP_SUCCESS\<rparr>"

definition engine_all_failing :: engine where
  "engine_all_failing =
     \<lparr>create_tablet_status = OLAP_ERR_OTHER (- 1), drop_tablet_status = OLAP_ERR_OTHER (- 1),
      schema_change_status = OLAP_ERR_OTHER (- 1),
      report_tablet_info_status = OLAP_ERR_OTHER (- 1),
      new_tablet_info = 10001, batch_load_status = DORIS_ERROR,
      batch_load_tablet_infos = [], publish_version_result = (\<lambda>n. (OLAP_ERR_OTHER (- 1), [77])),
      clear_alter_status = OLAP_ERR_OTHER (- 1), clone_status = DORIS_ERROR,
      clone_tablet_infos = [], storage_migration_status = OLAP_ERR_OTHER (- 1),
      checksum_status = OLAP_ERR_OTHER (- 1), upload_ok = False, download_ok = False,
      make_snapshot_status = OLAP_ERR_OTHER (- 1), scan_dir_ok = False,
      release_snapshot_status = OLAP_ERR_OTHER (- 1), get_tablet_found = False,
      loader_move_ok = False, recover_tablet_status = OLAP_ERR_OTHER (- 1),
      report_all_tablets_info_status = OLAP_ERR_OTHER (- 1)\<rparr>"

text \<open>A master that answers every RPC, and one that no RPC reaches.\<close>

definition master_up :: master where
  "master_up =
     \<lparr>finish_task_answer = (\<lambda>n. DORIS_SUCCESS), report_answer = DORIS_SUCCESS,
      master_port = 9020\<rparr>"

definition master_down :: master where
  "master_down =
     \<lparr>finish_task_answer = (\<lambda>n. DORIS_ERROR), report_answer = DORIS_ERROR,
      master_port = 9020\<rparr>"

text \<open>
  A callback has released a task once: its final state is \<^verbatim>\<open>_remove_task_info\<close> applied to
  a state that differs from the one the callback started in by the report version and by
  the trace only, the trace holding at most three more finish RPCs.
\<close>

definition released_by ::
  "agent_state \<Rightarrow> TTaskType \<Rightarrow> 64 word \<Rightarrow> string \<Rightarrow> agent_state \<Rightarrow> bool" where
  "released_by st ttype sig usr st_end \<longleftrightarrow>
     (\<exists>st'. st_end = remove_task_info ttype sig usr st'
          \<and> s_task_signatures st' = s_task_signatures st
          \<and> s_running_task_user_count st' = s_running_task_user_count st
          \<and> s_total_task_user_count st' = s_total_task_user_count st
          \<and> s_total_task_count st' = s_total_task_count st
          \<and> tasks st' = tasks st
          \<and> length (filter is_finish_task_rpc (trace st'))
               \<le> length (filter is_finish_task_rpc (trace st)) + 3)"

text \<open>
  Sample states: a pool with a \<^verbatim>\<open>NORMAL\<close> task followed by a \<^verbatim>\<open>HIGH\<close> task, and a pool with
  a single \<^verbatim>\<open>NORMAL\<close> task.
\<close>

definition normal_then_high :: agent_state where
  "normal_then_high =
     submit_task TaskWorkerType.PUSH (mk_task TTaskType.PUSH 2 (Some HIGH) (Some ''B''))
       (submit_task TaskWorkerType.PUSH (mk_task TTaskType.PUSH 1 (Some NORMAL) (Some ''A''))
          (initial_state 0))"

definition only_normal :: agent_state where
  "only_normal =
     submit_task TaskWorkerType.PUSH (mk_task TTaskType.PUSH 1 (Some NORMAL) (Some ''A''))
       (initial_state 0)"

text \<open>An engine whose \<^verbatim>\<open>publish_version\<close> fails twice with the error tablet 77, then succeeds.\<close>

definition engine_publish_third_time :: engine where
  "engine_publish_third_time =
     engine_all_ok\<lparr>publish_version_result :=
       (\<lambda>n. if n < 2 then (OLAP_ERR_OTHER (- 1), [77]) else (OLAP_SUCCESS, []))\<rparr>"

definition engine_already_loaded :: engine where
  "engine_already_loaded = engine_all_ok\<lparr>batch_load_status := DORIS_PUSH_HAD_LOADED\<rparr>"

text \<open>
  The bookkeeping that ties the registry to the tasks in the system. A task held by a
  worker is kept with its pool and the worker's user; its key is the task's. The
  invariant: no key occurs twice among the queued and the held tasks; no report worker
  holds a task; a signature is registered exactly when its key is queued or held; the
  total count of type \<^verbatim>\<open>PUSH\<close> is the number of registered \<^verbatim>\<open>PUSH\<close> signatures, as a 32-bit
  value; and the total count of every other type is zero.
\<close>

definition flight_key :: "TaskWorkerType \<times> TAgentTaskRequest \<times> string \<Rightarrow> TTaskType \<times> 64 word" where
  "flight_key e = task_key (fst (snd e))"

definition registry_inv :: "agent_state \<times> in_flight \<Rightarrow> bool" where
  "registry_inv s \<longleftrightarrow>
     (\<forall>pool. distinct (map task_key (tasks (fst s) pool)))
     \<and> (\<forall>p1 p2. p1 \<noteq> p2 \<longrightarrow>
           task_key ` set (tasks (fst s) p1) \<inter> task_key ` set (tasks (fst s) p2) = {})
     \<and> distinct (map flight_key (snd s))
     \<and> (\<forall>pool. task_key ` set (tasks (fst s) pool) \<inter> flight_key ` set (snd s) = {})
     \<and> (\<forall>e\<in>set (snd s). \<not> is_report_worker (fst e))
     \<and> (\<forall>ttype sig. sig \<in> s_task_signatures (fst s) ttype \<longleftrightarrow>
           (\<exists>pool. (ttype, sig) \<in> task_key ` set (tasks (fst s) pool))
           \<or> (ttype, sig) \<in> flight_key ` set (snd s))
     \<and> s_total_task_count (fst s) TTaskType.PUSH
         = of_nat (card (s_task_signatures (fst s) TTaskType.PUSH))
     \<and> (\<forall>ttype. ttype \<noteq> TTaskType.PUSH \<longrightarrow> s_total_task_count (fst s) ttype = 0)"


text \<open>Sample runs. A task of type \<^verbatim>\<open>DELETE\<close> is submitted to the delete pool.\<close>

definition delete_queued :: "agent_state \<times> in_flight" where
  "delete_queued =
     run default_config
       [Submit TaskWorkerType.DELETE (mk_task TTaskType.DELETE 7 None None)]
       (initial_state 0, [])"

text \<open>The same task submitted, taken by a \<^verbatim>\<open>NORMAL\<close> worker, executed and released.\<close>

definition delete_drained :: "agent_state \<times> in_flight" where
  "delete_drained =
     run default_config
       [Submit TaskWorkerType.DELETE (mk_task TTaskType.DELETE 7 None None),
        Take TaskWorkerType.DELETE NORMAL,
        Complete 0 engine_all_ok master_up]
       (initial_state 0, [])"

text \<open>A task of type \<^verbatim>\<open>PUSH\<close> is submitted to the push pool.\<close>

definition push_queued :: "agent_state \<times> in_flight" where
  "push_queued =
     run default_config
       [Submit TaskWorkerType.PUSH (mk_task TTaskType.PUSH 1 None (Some ''A''))]
       (initial_state 0, [])"

text \<open>
  A push pool of one \<^verbatim>\<open>NORMAL\<close> and one \<^verbatim>\<open>HIGH\<close> worker. User \<open>A\<close> has one task running and
  one queued; behind it a task without \<^verbatim>\<open>resource_info\<close> is queued.
\<close>

definition two_workers :: config where
  "two_workers =
     default_config\<lparr>push_worker_count_normal_priority := 1,
                    push_worker_count_high_priority := 1\<rparr>"

definition anonymous_behind_busy_user :: "agent_state \<times> in_flight" where
  "anonymous_behind_busy_user =
     run two_workers
       [Submit TaskWorkerType.PUSH (mk_task TTaskType.PUSH 1 None (Some ''A'')),
        Take TaskWorkerType.PUSH NORMAL,
        Submit TaskWorkerType.PUSH (mk_task TTaskType.PUSH 2 None (Some ''A'')),
        Submit TaskWorkerType.PUSH (mk_task TTaskType.PUSH 3 None None)]
       (initial_state 0, [])"

section \<open>Properties\<close>

subsection \<open>Frame lemmas and loop unrollings\<close>

lemma emit_fields [simp]:
  "s_report_version (emit e st) = s_report_version st"
  "s_task_signatures (emit e st) = s_task_signatures st"
  "s_running_task_user_count (emit e st) = s_running_task_user_count st"
  "s_total_task_user_count (emit e st) = s_total_task_user_count st"
  "s_total_task_count (emit e st) = s_total_task_count st"
  "tasks (emit e st) = tasks st"
  "s_worker_count (emit e st) = s_worker_count st"
  "trace (emit e st) = trace st @ [e]"
  by (simp_all add: emit_def)

lemma finish_task_loop_frame:
  "s_report_version (finish_task_loop cfg m r k st) = s_report_version st
   \<and> s_task_signatures (finish_task_loop cfg m r k st) = s_task_signatures st
   \<and> s_running_task_user_count (finish_task_loop cfg m r k st) = s_running_task_user_count st
   \<and> s_total_task_user_count (finish_task_loop cfg m r k st) = s_total_task_user_count st
   \<and> s_total_task_count (finish_task_loop cfg m r k st) = s_total_task_count st
   \<and> tasks (finish_task_loop cfg m r k st) = tasks st
   \<and> s_worker_count (finish_task_loop cfg m r k st) = s_worker_count st"
proof (induction cfg m r k st rule: finish_task_loop.induct)
  case (1 cfg m r k st)
  show ?case
    by (subst (1 2 3 4 5 6 7) finish_task_loop.simps) (use 1 in \<open>simp add: Let_def\<close>)
qed

lemma finish_task_frame [simp]:
  "s_report_version (finish_task cfg m r st) = s_report_version st"
  "s_task_signatures (finish_task cfg m r st) = s_task_signatures st"
  "s_running_task_user_count (finish_task cfg m r st) = s_running_task_user_count st"
  "s_total_task_user_count (finish_task cfg m r st) = s_total_task_user_count st"
  "s_total_task_count (finish_task cfg m r st) = s_total_task_count st"
  "tasks (finish_task cfg m r st) = tasks st"
  "s_worker_count (finish_task cfg m r st) = s_worker_count st"
  by (simp_all add: finish_task_def finish_task_loop_frame)

lemma finish_task_loop_attempts:
  "length (filter is_finish_task_rpc (trace (finish_task_loop cfg m r k st)))
     \<le> length (filter is_finish_task_rpc (trace st)) + (TASK_FINISH_MAX_RETRY - k)"
proof (induction cfg m r k st rule: finish_task_loop.induct)
  case (1 cfg m r k st)
  show ?case
  proof (cases "k < TASK_FINISH_MAX_RETRY")
    case False
    then show ?thesis by (subst finish_task_loop.simps) simp
  next
    case True
    show ?thesis
    proof (cases "finish_task_answer m k = DORIS_SUCCESS")
      case s: True
      with True show ?thesis by (subst finish_task_loop.simps) (simp add: Let_def)
    next
      case f: False
      from 1[OF True refl f] True f show ?thesis
        by (subst finish_task_loop.simps) (simp add: Let_def)
    qed
  qed
qed

lemma finish_task_loop_unroll:
  "finish_task_loop cfg m r 0 st =
     (let st1 = emit (FinishTaskRpc r) st
      in if finish_task_answer m 0 = DORIS_SUCCESS then st1
         else
           (let st2 = emit (FinishTaskRpc r) (emit (Sleep (unat (sleep_one_second cfg))) st1)
            in if finish_task_answer m (Suc 0) = DORIS_SUCCESS then st2
               else
                 (let st3 = emit (FinishTaskRpc r)
                              (emit (Sleep (unat (sleep_one_second cfg))) st2)
                  in if finish_task_answer m (Suc (Suc 0)) = DORIS_SUCCESS then st3
                     else emit (Sleep (unat (sleep_one_second cfg))) st3)))"
  apply (subst finish_task_loop.simps)
  apply (subst finish_task_loop.simps)
  apply (subst finish_task_loop.simps)
  apply (subst finish_task_loop.simps)
  apply (simp add: TASK_FINISH_MAX_RETRY_def Let_def)
  done

lemma finish_task_first_success:
  assumes "k < 3" "finish_task_answer m k = DORIS_SUCCESS"
    "\<forall>j<k. finish_task_answer m j \<noteq> DORIS_SUCCESS"
  shows "trace (finish_task cfg m r st) =
     trace st @ concat (replicate k [FinishTaskRpc r, Sleep (unat (sleep_one_second cfg))])
       @ [FinishTaskRpc r]"
proof -
  from assms(1) consider "k = 0" | "k = Suc 0" | "k = Suc (Suc 0)" by linarith
  then show ?thesis
  proof cases
    case 1
    with assms show ?thesis
      by (simp add: finish_task_def finish_task_loop_unroll Let_def)
  next
    case 2
    with assms show ?thesis
      by (simp add: finish_task_def finish_task_loop_unroll Let_def)
  next
    case 3
    with assms have "finish_task_answer m 0 \<noteq> DORIS_SUCCESS"
      "finish_task_answer m (Suc 0) \<noteq> DORIS_SUCCESS" by auto
    with 3 assms(2) show ?thesis
      by (simp add: finish_task_def finish_task_loop_unroll Let_def)
  qed
qed

lemma finish_task_all_fail:
  assumes "\<forall>j<3. finish_task_answer m j \<noteq> DORIS_SUCCESS"
  shows "trace (finish_task cfg m r st) =
     trace st @ concat (replicate 3 [FinishTaskRpc r, Sleep (unat (sleep_one_second cfg))])"
proof -
  from assms have "finish_task_answer m 0 \<noteq> DORIS_SUCCESS"
    "finish_task_answer m (Suc 0) \<noteq> DORIS_SUCCESS"
    "finish_task_answer m (Suc (Suc 0)) \<noteq> DORIS_SUCCESS" by auto
  then show ?thesis
    by (simp add: finish_task_def finish_task_loop_unroll Let_def numeral_3_eq_3)
qed


lemma finish_task_attempts:
  "length (filter is_finish_task_rpc (trace (finish_task cfg m r st)))
     \<le> length (filter is_finish_task_rpc (trace st)) + 3"
  using finish_task_loop_attempts[of cfg m r 0 st]
  by (simp add: finish_task_def TASK_FINISH_MAX_RETRY_def)

lemma incr_report_version_fields [simp]:
  "s_report_version (incr_report_version st) = s_report_version st + 1"
  "s_task_signatures (incr_report_version st) = s_task_signatures st"
  "s_running_task_user_count (incr_report_version st) = s_running_task_user_count st"
  "s_total_task_user_count (incr_report_version st) = s_total_task_user_count st"
  "s_total_task_count (incr_report_version st) = s_total_task_count st"
  "tasks (incr_report_version st) = tasks st"
  "s_worker_count (incr_report_version st) = s_worker_count st"
  "trace (incr_report_version st) = trace st"
  by (simp_all add: incr_report_version_def)

lemma remove_task_info_fields [simp]:
  "s_report_version (remove_task_info ty sig u st) = s_report_version st"
  "tasks (remove_task_info ty sig u st) = tasks st"
  "s_worker_count (remove_task_info ty sig u st) = s_worker_count st"
  "trace (remove_task_info ty sig u st) = trace st"
  "s_task_signatures (remove_task_info ty sig u st) =
     (s_task_signatures st)(ty := s_task_signatures st ty - {sig})"
  by (simp_all add: remove_task_info_def Let_def)

lemma publish_version_loop_unroll:
  "publish_version_loop eng 0 res ids st =
     (let st1 = emit (PublishVersionCall []) st
      in if fst (publish_version_result eng 0) = OLAP_SUCCESS
         then (publish_version_result eng 0, st1)
         else
           (let st2 = emit (PublishVersionCall []) (emit (Sleep 1) st1)
            in if fst (publish_version_result eng (Suc 0)) = OLAP_SUCCESS
               then (publish_version_result eng (Suc 0), st2)
               else
                 (let st3 = emit (PublishVersionCall []) (emit (Sleep 1) st2)
                  in if fst (publish_version_result eng (Suc (Suc 0))) = OLAP_SUCCESS
                     then (publish_version_result eng (Suc (Suc 0)), st3)
                     else (publish_version_result eng (Suc (Suc 0)), emit (Sleep 1) st3))))"
  apply (subst publish_version_loop.simps)
  apply (subst publish_version_loop.simps)
  apply (subst publish_version_loop.simps)
  apply (subst publish_version_loop.simps)
  apply (simp add: PUBLISH_VERSION_MAX_RETRY_def Let_def prod_eq_iff)
  done

lemma publish_version_loop_frame:
  "s_report_version (snd (publish_version_loop eng 0 res ids st)) = s_report_version st
   \<and> s_task_signatures (snd (publish_version_loop eng 0 res ids st)) = s_task_signatures st
   \<and> s_running_task_user_count (snd (publish_version_loop eng 0 res ids st))
       = s_running_task_user_count st
   \<and> s_total_task_user_count (snd (publish_version_loop eng 0 res ids st))
       = s_total_task_user_count st
   \<and> s_total_task_count (snd (publish_version_loop eng 0 res ids st)) = s_total_task_count st
   \<and> tasks (snd (publish_version_loop eng 0 res ids st)) = tasks st
   \<and> s_worker_count (snd (publish_version_loop eng 0 res ids st)) = s_worker_count st
   \<and> filter is_finish_task_rpc (trace (snd (publish_version_loop eng 0 res ids st)))
       = filter is_finish_task_rpc (trace st)
   \<and> length (filter is_publish_version_call (trace (snd (publish_version_loop eng 0 res ids st))))
       \<le> length (filter is_publish_version_call (trace st)) + 3"
  by (simp add: publish_version_loop_unroll Let_def)

lemma released_after_finish:
  assumes "s_task_signatures st1 = s_task_signatures st"
    "s_running_task_user_count st1 = s_running_task_user_count st"
    "s_total_task_user_count st1 = s_total_task_user_count st"
    "s_total_task_count st1 = s_total_task_count st"
    "tasks st1 = tasks st"
    "filter is_finish_task_rpc (trace st1) = filter is_finish_task_rpc (trace st)"
  shows "released_by st ty sig u (remove_task_info ty sig u (finish_task cfg m r st1))"
  unfolding released_by_def
  using assms finish_task_attempts[of cfg m r st1]
  by (intro exI[of _ "finish_task cfg m r st1"]) simp

lemma released_at_once: "released_by st ty sig u (remove_task_info ty sig u st)"
  unfolding released_by_def by (intro exI[of _ st]) simp

lemma callback_execute_released:
  assumes "\<not> is_report_worker pool"
  shows "released_by st (task_type req) (signature req)
           (if uses_push_callback pool then usr else [])
           (callback_execute cfg eng m pool req usr st)"
  using assms publish_version_loop_frame[of eng OLAP_SUCCESS "[]" st]
  by (cases pool)
    (simp_all add: is_report_worker_def uses_push_callback_def released_after_finish
      released_at_once create_tablet_execute_def drop_tablet_execute_def push_execute_def
      publish_version_execute_def alter_tablet_execute_def alter_tablet_def clone_execute_def
      report_status_def clear_alter_task_execute_def
      clear_transaction_task_execute_def storage_medium_migrate_execute_def
      check_consistency_execute_def upload_execute_def download_execute_def
      make_snapshot_execute_def release_snapshot_execute_def move_dir_execute_def
      recover_tablet_execute_def Let_def case_prod_beta)

lemma scan_high_None:
  "fst (scan_tasks st tc HIGH q k u imp) = None \<longleftrightarrow> (\<forall>t\<in>set q. priority t \<noteq> Some HIGH)"
  by (induction q arbitrary: k u imp) (auto simp: Let_def)

lemma scan_high_Some:
  "fst (scan_tasks st tc HIGH q k u imp) = Some n \<Longrightarrow>
     k \<le> n \<and> n - k < length q \<and> priority (q ! (n - k)) = Some HIGH
     \<and> (\<forall>j<n - k. priority (q ! j) \<noteq> Some HIGH)"
proof (induction q arbitrary: k u imp)
  case Nil
  then show ?case by simp
next
  case (Cons t q)
  show ?case
  proof (cases "priority t = Some HIGH")
    case True
    with Cons.prems show ?thesis by (simp add: Let_def)
  next
    case False
    with Cons.prems have r: "fst (scan_tasks st tc HIGH q (Suc k)
        (case resource_info t of Some u' \<Rightarrow> u' | None \<Rightarrow> u) imp) = Some n"
      by (simp add: Let_def)
    from Cons.IH[OF r] have ih: "Suc k \<le> n" "n - Suc k < length q"
      "priority (q ! (n - Suc k)) = Some HIGH" "\<forall>j<n - Suc k. priority (q ! j) \<noteq> Some HIGH"
      by auto
    from ih(1) have e: "n - k = Suc (n - Suc k)" by simp
    show ?thesis using ih False unfolding e
      by (auto simp: nth_Cons split: nat.splits)
  qed
qed

lemma sint_index: "i < 2 ^ 31 \<Longrightarrow> sint (word_of_nat i :: 32 word) = int i"
  by (simp add: signed_of_nat signed_take_bit_int_eq_self)

lemma get_next_high:
  "get_next_task_index tc q HIGH st =
     (case fst (scan_tasks st tc HIGH q 0 [] {}) of
        None \<Rightarrow> Some (- 1, st)
      | Some i \<Rightarrow> Some (word_of_nat i,
          incr_running (task_type (q ! i)) (snd (scan_tasks st tc HIGH q 0 [] {})) st))"
  by (simp add: get_next_task_index_def split: prod.splits option.splits)

lemma incr_running_fields [simp]:
  "s_report_version (incr_running ty u st) = s_report_version st"
  "s_task_signatures (incr_running ty u st) = s_task_signatures st"
  "s_total_task_user_count (incr_running ty u st) = s_total_task_user_count st"
  "s_total_task_count (incr_running ty u st) = s_total_task_count st"
  "tasks (incr_running ty u st) = tasks st"
  "s_worker_count (incr_running ty u st) = s_worker_count st"
  "trace (incr_running ty u st) = trace st"
  by (simp_all add: incr_running_def)

lemma high_first:
  assumes i: "i < length q" "priority (q ! i) = Some HIGH" "\<forall>j<i. priority (q ! j) \<noteq> Some HIGH"
  shows "fst (scan_tasks st tc HIGH q 0 [] {}) = Some i"
proof -
  from i(1,2) have "\<not> (\<forall>t\<in>set q. priority t \<noteq> Some HIGH)"
    using nth_mem by blast
  then obtain n where n: "fst (scan_tasks st tc HIGH q 0 [] {}) = Some n"
    using scan_high_None[of st tc q 0 "[]" "{}"] by (cases "fst (scan_tasks st tc HIGH q 0 [] {})") auto
  from scan_high_Some[OF n] have p: "n < length q" "priority (q ! n) = Some HIGH"
    "\<forall>j<n. priority (q ! j) \<noteq> Some HIGH" by auto
  have "n = i" using i p by (meson linorder_neqE_nat)
  with n show ?thesis by simp
qed

subsection \<open>Admission\<close>

text \<open>
  Claim C2. A submission whose (type, signature) pair is in the signature registry is
  rejected and changes nothing: the state after it is the state before it (signature
  sets, both totals, the running counts, every pool's deque and the trace). After any
  submission the pair is registered, so a second submission of the same task, to
  whichever pool, leaves the state of the first; a pair that was not registered is put
  on the deque exactly once by the two submissions.
\<close>

theorem duplicate_submission_rejected:
  "(signature task \<in> s_task_signatures st (task_type task) \<longrightarrow> submit_task pool task st = st)
   \<and> signature task \<in> s_task_signatures (submit_task pool task st) (task_type task)
   \<and> submit_task pool' task (submit_task pool task st) = submit_task pool task st
   \<and> (signature task \<notin> s_task_signatures st (task_type task) \<longrightarrow>
        tasks (submit_task pool' task (submit_task pool task st)) pool = tasks st pool @ [task])"
  by (auto simp: submit_task_def record_task_info_def Let_def emit_def)

theorem duplicate_submission_rejected_witness:
  "signature (mk_task CREATE 1 None None)
     \<in> s_task_signatures (submit_task CREATE_TABLE (mk_task CREATE 1 None None) (initial_state 0))
         (task_type (mk_task CREATE 1 None None))
   \<and> submit_task CREATE_TABLE (mk_task CREATE 1 None None)
       (submit_task CREATE_TABLE (mk_task CREATE 1 None None) (initial_state 0))
     = submit_task CREATE_TABLE (mk_task CREATE 1 None None) (initial_state 0)
   \<and> signature (mk_task CREATE 1 None None)
       \<notin> s_task_signatures (initial_state 0) (task_type (mk_task CREATE 1 None None))
   \<and> tasks (submit_task CREATE_TABLE (mk_task CREATE 1 None None)
              (submit_task CREATE_TABLE (mk_task CREATE 1 None None) (initial_state 0)))
        CREATE_TABLE
     = [mk_task CREATE 1 None None]"
proof -
  let ?t = "mk_task CREATE 1 None None"
  have fresh: "signature ?t \<notin> s_task_signatures (initial_state 0) (task_type ?t)"
    by (simp add: initial_state_def)
  have empty: "tasks (initial_state 0) CREATE_TABLE = []"
    by (simp add: initial_state_def)
  note T = duplicate_submission_rejected
         [where task = ?t and st = "initial_state 0" and pool = CREATE_TABLE
            and pool' = CREATE_TABLE]
  have a: "signature ?t \<in> s_task_signatures (submit_task CREATE_TABLE ?t (initial_state 0))
             (task_type ?t)"
    using T by blast
  have b: "submit_task CREATE_TABLE ?t (submit_task CREATE_TABLE ?t (initial_state 0))
             = submit_task CREATE_TABLE ?t (initial_state 0)"
    using T by blast
  have c: "tasks (submit_task CREATE_TABLE ?t (submit_task CREATE_TABLE ?t (initial_state 0)))
             CREATE_TABLE = [?t]"
    using T fresh empty by (metis append_Nil)
  show ?thesis by (intro conjI a b c fresh)
qed

subsection \<open>Release\<close>

text \<open>
  Claim C10. For every task type other than \<^verbatim>\<open>PUSH\<close>, \<^verbatim>\<open>_remove_task_info\<close> erases the
  signature from the set of that type and writes nothing else: the state is the old one
  with that one set changed, and the per-user totals, the per-type totals and the running
  counts are the old ones, whatever user string is passed.
\<close>

theorem remove_task_info_other_kinds:
  "ttype \<noteq> TTaskType.PUSH \<Longrightarrow>
     remove_task_info ttype sig usr st =
       st\<lparr>s_task_signatures := (s_task_signatures st)(ttype := s_task_signatures st ttype - {sig})\<rparr>
     \<and> s_total_task_user_count (remove_task_info ttype sig usr st) = s_total_task_user_count st
     \<and> s_total_task_count (remove_task_info ttype sig usr st) = s_total_task_count st
     \<and> s_running_task_user_count (remove_task_info ttype sig usr st) = s_running_task_user_count st"
  by (simp add: remove_task_info_def Let_def)

theorem remove_task_info_other_kinds_witness:
  "CREATE \<noteq> TTaskType.PUSH
   \<and> s_total_task_count (remove_task_info CREATE 1 ''someone'' only_normal)
       = s_total_task_count only_normal
   \<and> s_running_task_user_count (remove_task_info CREATE 1 ''someone'' only_normal)
       = s_running_task_user_count only_normal
   \<and> s_total_task_user_count (remove_task_info CREATE 1 ''someone'' only_normal)
       = s_total_task_user_count only_normal"
  using remove_task_info_other_kinds
          [where ttype = CREATE and sig = 1 and usr = "''someone''" and st = only_normal]
  by simp

subsection \<open>A push that was already loaded\<close>

text \<open>
  Claim C9. When the engine answers \<^verbatim>\<open>DORIS_PUSH_HAD_LOADED\<close>, the push callback does
  \<^verbatim>\<open>_remove_task_info\<close> for the task and nothing else: the signature is no longer
  registered, the trace is the old one (no finish RPC, no sleep), the report version is
  the old one and no deque is touched.
\<close>

theorem push_already_loaded:
  "batch_load_status eng = DORIS_PUSH_HAD_LOADED \<Longrightarrow>
     push_execute cfg eng m req usr st = remove_task_info (task_type req) (signature req) usr st
     \<and> signature req \<notin> s_task_signatures (push_execute cfg eng m req usr st) (task_type req)
     \<and> trace (push_execute cfg eng m req usr st) = trace st
     \<and> s_report_version (push_execute cfg eng m req usr st) = s_report_version st
     \<and> tasks (push_execute cfg eng m req usr st) = tasks st"
  by (simp add: push_execute_def Let_def)

theorem push_already_loaded_witness:
  "batch_load_status engine_already_loaded = DORIS_PUSH_HAD_LOADED
   \<and> trace (push_execute default_config engine_already_loaded master_up
              (mk_task TTaskType.PUSH 1 (Some NORMAL) (Some ''A'')) ''A'' only_normal)
       = trace only_normal
   \<and> s_report_version (push_execute default_config engine_already_loaded master_up
              (mk_task TTaskType.PUSH 1 (Some NORMAL) (Some ''A'')) ''A'' only_normal)
       = s_report_version only_normal
   \<and> 1 \<notin> s_task_signatures (push_execute default_config engine_already_loaded master_up
              (mk_task TTaskType.PUSH 1 (Some NORMAL) (Some ''A'')) ''A'' only_normal)
            TTaskType.PUSH"
proof -
  have h: "batch_load_status engine_already_loaded = DORIS_PUSH_HAD_LOADED"
    by (simp add: engine_already_loaded_def)
  from push_already_loaded
         [OF h, where cfg = default_config and m = master_up
            and req = "mk_task TTaskType.PUSH 1 (Some NORMAL) (Some ''A'')" and usr = "''A''"
            and st = only_normal] h
  show ?thesis by (simp add: mk_task_def)
qed

subsection \<open>The selector under a \<^verbatim>\<open>HIGH\<close> worker\<close>

text \<open>
  Claim C3. For a deque of fewer than \<open>2\<^sup>3\<^sup>1\<close> tasks (the range of the \<^verbatim>\<open>int32_t\<close> index)
  and a \<^verbatim>\<open>HIGH\<close> worker: if \<open>i\<close> is the smallest position whose task has its priority set
  to \<^verbatim>\<open>HIGH\<close>, the selector returns \<open>i\<close> and the callback takes exactly that task off the
  deque; if no task has priority \<^verbatim>\<open>HIGH\<close>, the selector returns \<open>-1\<close> with the state as it
  was, and the callback leaves without a task, having only notified the condition
  variable and slept a second (no deque and no counter changes); and whatever task a
  \<^verbatim>\<open>HIGH\<close> worker leaves with has priority \<^verbatim>\<open>HIGH\<close>.
\<close>

theorem high_worker_takes_first_high_task:
  assumes len: "length (tasks st pool) < 2 ^ 31"
  shows
    "(\<forall>i. i < length (tasks st pool) \<and> priority (tasks st pool ! i) = Some HIGH
           \<and> (\<forall>j<i. priority (tasks st pool ! j) \<noteq> Some HIGH)
         \<longrightarrow> (\<exists>st1. get_next_task_index tc (tasks st pool) HIGH st = Some (word_of_nat i, st1)
                  \<and> sint (word_of_nat i :: 32 word) = int i)
             \<and> (\<exists>usr st2. push_take cfg pool HIGH st = Picked (tasks st pool ! i) usr st2
                  \<and> tasks st2 pool = take i (tasks st pool) @ drop (Suc i) (tasks st pool)))
     \<and> ((\<forall>t\<in>set (tasks st pool). priority t \<noteq> Some HIGH)
         \<longrightarrow> get_next_task_index tc (tasks st pool) HIGH st = Some (- 1, st)
             \<and> (tasks st pool \<noteq> []
                 \<longrightarrow> push_take cfg pool HIGH st = NoTask (emit (Sleep 1) (emit (Notify pool) st))))
     \<and> (\<forall>t usr st2. push_take cfg pool HIGH st = Picked t usr st2 \<longrightarrow> priority t = Some HIGH)"
proof (intro conjI allI impI)
  fix i
  assume a: "i < length (tasks st pool) \<and> priority (tasks st pool ! i) = Some HIGH
           \<and> (\<forall>j<i. priority (tasks st pool ! j) \<noteq> Some HIGH)"
  then have f: "\<And>tc. fst (scan_tasks st tc HIGH (tasks st pool) 0 [] {}) = Some i"
    using high_first by blast
  from a len have s: "sint (word_of_nat i :: 32 word) = int i"
    by (intro sint_index) simp
  show "\<exists>st1. get_next_task_index tc (tasks st pool) HIGH st = Some (word_of_nat i, st1)
                  \<and> sint (word_of_nat i :: 32 word) = int i"
    using f s by (simp add: get_next_high)
  from a have ne: "tasks st pool \<noteq> []" by auto
  show "\<exists>usr st2. push_take cfg pool HIGH st = Picked (tasks st pool ! i) usr st2
                  \<and> tasks st2 pool = take i (tasks st pool) @ drop (Suc i) (tasks st pool)"
    using f s ne by (simp add: push_take_def get_next_high Let_def)
next
  assume n: "\<forall>t\<in>set (tasks st pool). priority t \<noteq> Some HIGH"
  then have f: "\<And>tc. fst (scan_tasks st tc HIGH (tasks st pool) 0 [] {}) = None"
    using scan_high_None by blast
  show g: "get_next_task_index tc (tasks st pool) HIGH st = Some (- 1, st)"
    using f by (simp add: get_next_high)
  assume "tasks st pool \<noteq> []"
  then show "push_take cfg pool HIGH st = NoTask (emit (Sleep 1) (emit (Notify pool) st))"
    using f by (simp add: push_take_def get_next_high)
next
  fix t usr st2
  assume p: "push_take cfg pool HIGH st = Picked t usr st2"
  let ?tc = "push_worker_count_normal_priority cfg + push_worker_count_high_priority cfg"
  show "priority t = Some HIGH"
  proof (cases "fst (scan_tasks st ?tc HIGH (tasks st pool) 0 [] {})")
    case None
    with p show ?thesis
      by (simp add: push_take_def get_next_high split: if_splits)
  next
    case (Some n)
    from scan_high_Some[OF Some] have q: "n < length (tasks st pool)"
      "priority (tasks st pool ! n) = Some HIGH" by auto
    with len have s: "sint (word_of_nat n :: 32 word) = int n"
      by (intro sint_index) simp
    from p Some s q show ?thesis
      by (simp add: push_take_def get_next_high Let_def split: if_splits)
  qed
qed

theorem high_worker_takes_first_high_task_witness:
  "length (tasks normal_then_high TaskWorkerType.PUSH) < 2 ^ 31
   \<and> priority (tasks normal_then_high TaskWorkerType.PUSH ! 1) = Some HIGH
   \<and> priority (tasks normal_then_high TaskWorkerType.PUSH ! 0) \<noteq> Some HIGH
   \<and> (\<exists>st1. get_next_task_index 6 (tasks normal_then_high TaskWorkerType.PUSH) HIGH
               normal_then_high = Some (1, st1))
   \<and> (\<exists>usr st2. push_take default_config TaskWorkerType.PUSH HIGH normal_then_high
                  = Picked (mk_task TTaskType.PUSH 2 (Some HIGH) (Some ''B'')) usr st2
               \<and> tasks st2 TaskWorkerType.PUSH
                  = [mk_task TTaskType.PUSH 1 (Some NORMAL) (Some ''A'')])
   \<and> length (tasks only_normal TaskWorkerType.PUSH) < 2 ^ 31
   \<and> tasks only_normal TaskWorkerType.PUSH = [mk_task TTaskType.PUSH 1 (Some NORMAL) (Some ''A'')]
   \<and> get_next_task_index 6 (tasks only_normal TaskWorkerType.PUSH) HIGH only_normal
       = Some (- 1, only_normal)
   \<and> push_take default_config TaskWorkerType.PUSH HIGH only_normal
       = NoTask (emit (Sleep 1) (emit (Notify TaskWorkerType.PUSH) only_normal))"
proof -
  have q2: "tasks normal_then_high TaskWorkerType.PUSH
      = [mk_task TTaskType.PUSH 1 (Some NORMAL) (Some ''A''),
         mk_task TTaskType.PUSH 2 (Some HIGH) (Some ''B'')]"
    by (simp add: normal_then_high_def submit_task_def record_task_info_def initial_state_def
        mk_task_def Let_def)
  have q1: "tasks only_normal TaskWorkerType.PUSH
      = [mk_task TTaskType.PUSH 1 (Some NORMAL) (Some ''A'')]"
    by (simp add: only_normal_def submit_task_def record_task_info_def initial_state_def
        mk_task_def Let_def)
  have l2: "length (tasks normal_then_high TaskWorkerType.PUSH) < 2 ^ 31"
    and l1: "length (tasks only_normal TaskWorkerType.PUSH) < 2 ^ 31"
    by (simp_all add: q1 q2)
  have p: "priority (mk_task TTaskType.PUSH 2 (Some HIGH) (Some ''B'')) = Some HIGH"
    "priority (mk_task TTaskType.PUSH 1 (Some NORMAL) (Some ''A'')) \<noteq> Some HIGH"
    by (simp_all add: mk_task_def)
  from high_worker_takes_first_high_task
         [OF l2, where tc = 6 and cfg = default_config, THEN conjunct1, THEN spec, of 1]
       high_worker_takes_first_high_task
         [OF l1, where tc = 6 and cfg = default_config, THEN conjunct2, THEN conjunct1]
       q1 q2 l1 l2 p
  show ?thesis by simp
qed

subsection \<open>The publish callback\<close>

text \<open>
  Claim C5. The engine's \<^verbatim>\<open>publish_version\<close> is called at most three times, each time on a
  cleared error-tablet vector, with a one-second sleep after each failed call. If the
  call number \<open>k\<close> (\<open>k < 3\<close>) is the first to succeed, the trace grows by \<open>k\<close> failed calls,
  each followed by the sleep, and the successful call; then \<^verbatim>\<open>_finish_task\<close> is entered
  once, with a request of status \<^verbatim>\<open>OK\<close> in which \<^verbatim>\<open>error_tablet_ids\<close> is not set. If all
  three calls fail, it is entered once with a request of status \<^verbatim>\<open>RUNTIME_ERROR\<close> that
  carries the error tablets of the third call. Either way the task is then removed from
  the registry.
\<close>

theorem publish_version_retry:
  "(\<forall>k. k < 3 \<and> fst (publish_version_result eng k) = OLAP_SUCCESS
          \<and> (\<forall>j<k. fst (publish_version_result eng j) \<noteq> OLAP_SUCCESS)
      \<longrightarrow> publish_version_execute cfg eng m req st =
            remove_task_info (task_type req) (signature req) []
              (finish_task cfg m
                 \<lparr>fin_task_type = Some (task_type req), fin_signature = Some (signature req),
                  fin_status_code = Some OK, fin_report_version = None,
                  fin_finish_tablet_infos = None, fin_error_tablet_ids = None\<rparr>
                 (st\<lparr>trace := trace st @ concat (replicate k [PublishVersionCall [], Sleep 1])
                                 @ [PublishVersionCall []]\<rparr>)))
   \<and> ((\<forall>j<3. fst (publish_version_result eng j) \<noteq> OLAP_SUCCESS)
      \<longrightarrow> publish_version_execute cfg eng m req st =
            remove_task_info (task_type req) (signature req) []
              (finish_task cfg m
                 \<lparr>fin_task_type = Some (task_type req), fin_signature = Some (signature req),
                  fin_status_code = Some RUNTIME_ERROR, fin_report_version = None,
                  fin_finish_tablet_infos = None,
                  fin_error_tablet_ids = Some (snd (publish_version_result eng 2))\<rparr>
                 (st\<lparr>trace := trace st @ concat (replicate 3 [PublishVersionCall [], Sleep 1])\<rparr>)))
   \<and> length (filter is_publish_version_call (trace (publish_version_execute cfg eng m req st)))
       \<le> length (filter is_publish_version_call (trace st)) + PUBLISH_VERSION_MAX_RETRY"
proof (intro conjI allI impI)
  fix k
  assume a: "k < 3 \<and> fst (publish_version_result eng k) = OLAP_SUCCESS
          \<and> (\<forall>j<k. fst (publish_version_result eng j) \<noteq> OLAP_SUCCESS)"
  then consider "k = 0" | "k = Suc 0" | "k = Suc (Suc 0)" by linarith
  then show "publish_version_execute cfg eng m req st =
            remove_task_info (task_type req) (signature req) []
              (finish_task cfg m
                 \<lparr>fin_task_type = Some (task_type req), fin_signature = Some (signature req),
                  fin_status_code = Some OK, fin_report_version = None,
                  fin_finish_tablet_infos = None, fin_error_tablet_ids = None\<rparr>
                 (st\<lparr>trace := trace st @ concat (replicate k [PublishVersionCall [], Sleep 1])
                                 @ [PublishVersionCall []]\<rparr>))"
  proof cases
    case 1
    with a show ?thesis
      by (simp add: publish_version_execute_def publish_version_loop_unroll Let_def emit_def
          empty_finish_task_request_def case_prod_beta)
  next
    case 2
    with a show ?thesis
      by (simp add: publish_version_execute_def publish_version_loop_unroll Let_def emit_def
          empty_finish_task_request_def case_prod_beta)
  next
    case 3
    with a have "fst (publish_version_result eng 0) \<noteq> OLAP_SUCCESS"
      "fst (publish_version_result eng (Suc 0)) \<noteq> OLAP_SUCCESS" by auto
    with 3 a show ?thesis
      by (simp add: publish_version_execute_def publish_version_loop_unroll Let_def emit_def
          empty_finish_task_request_def case_prod_beta)
  qed
next
  assume "\<forall>j<3. fst (publish_version_result eng j) \<noteq> OLAP_SUCCESS"
  then have "fst (publish_version_result eng 0) \<noteq> OLAP_SUCCESS"
    "fst (publish_version_result eng (Suc 0)) \<noteq> OLAP_SUCCESS"
    "fst (publish_version_result eng (Suc (Suc 0))) \<noteq> OLAP_SUCCESS" by auto
  then show "publish_version_execute cfg eng m req st =
            remove_task_info (task_type req) (signature req) []
              (finish_task cfg m
                 \<lparr>fin_task_type = Some (task_type req), fin_signature = Some (signature req),
                  fin_status_code = Some RUNTIME_ERROR, fin_report_version = None,
                  fin_finish_tablet_infos = None,
                  fin_error_tablet_ids = Some (snd (publish_version_result eng 2))\<rparr>
                 (st\<lparr>trace := trace st @ concat (replicate 3 [PublishVersionCall [], Sleep 1])\<rparr>))"
    by (simp add: publish_version_execute_def publish_version_loop_unroll Let_def emit_def
        empty_finish_task_request_def numeral_3_eq_3 numeral_2_eq_2 case_prod_beta)
next
  obtain res ids st1 where p: "publish_version_loop eng 0 OLAP_SUCCESS [] st = ((res, ids), st1)"
    by (metis surj_pair)
  from publish_version_loop_frame[of eng OLAP_SUCCESS "[]" st] p
  have "length (filter is_publish_version_call (trace st1))
       \<le> length (filter is_publish_version_call (trace st)) + 3" by simp
  moreover have "filter is_publish_version_call (trace (finish_task cfg m r st1))
      = filter is_publish_version_call (trace st1)" for r
    by (simp add: finish_task_def finish_task_loop_unroll Let_def)
  ultimately show "length (filter is_publish_version_call
                     (trace (publish_version_execute cfg eng m req st)))
       \<le> length (filter is_publish_version_call (trace st)) + PUBLISH_VERSION_MAX_RETRY"
    by (simp add: publish_version_execute_def p Let_def PUBLISH_VERSION_MAX_RETRY_def)
qed

theorem publish_version_retry_witness:
  "fst (publish_version_result engine_publish_third_time 0) \<noteq> OLAP_SUCCESS
   \<and> fst (publish_version_result engine_publish_third_time 1) \<noteq> OLAP_SUCCESS
   \<and> fst (publish_version_result engine_publish_third_time 2) = OLAP_SUCCESS
   \<and> publish_version_execute default_config engine_publish_third_time master_up
       (mk_task TTaskType.PUBLISH_VERSION 5 None None) (initial_state 0)
     = remove_task_info TTaskType.PUBLISH_VERSION 5 []
         (finish_task default_config master_up
            \<lparr>fin_task_type = Some TTaskType.PUBLISH_VERSION, fin_signature = Some 5,
             fin_status_code = Some OK, fin_report_version = None,
             fin_finish_tablet_infos = None, fin_error_tablet_ids = None\<rparr>
            ((initial_state 0)
               \<lparr>trace := [PublishVersionCall [], Sleep 1, PublishVersionCall [], Sleep 1,
                          PublishVersionCall []]\<rparr>))
   \<and> fst (publish_version_result engine_all_failing 0) \<noteq> OLAP_SUCCESS
   \<and> fst (publish_version_result engine_all_failing 1) \<noteq> OLAP_SUCCESS
   \<and> fst (publish_version_result engine_all_failing 2) \<noteq> OLAP_SUCCESS
   \<and> publish_version_execute default_config engine_all_failing master_up
       (mk_task TTaskType.PUBLISH_VERSION 5 None None) (initial_state 0)
     = remove_task_info TTaskType.PUBLISH_VERSION 5 []
         (finish_task default_config master_up
            \<lparr>fin_task_type = Some TTaskType.PUBLISH_VERSION, fin_signature = Some 5,
             fin_status_code = Some RUNTIME_ERROR, fin_report_version = None,
             fin_finish_tablet_infos = None, fin_error_tablet_ids = Some [77]\<rparr>
            ((initial_state 0)
               \<lparr>trace := [PublishVersionCall [], Sleep 1, PublishVersionCall [], Sleep 1,
                          PublishVersionCall [], Sleep 1]\<rparr>))"
proof -
  have r: "publish_version_result engine_publish_third_time 0 = (OLAP_ERR_OTHER (- 1), [77])"
    "publish_version_result engine_publish_third_time 1 = (OLAP_ERR_OTHER (- 1), [77])"
    "publish_version_result engine_publish_third_time 2 = (OLAP_SUCCESS, [])"
    "publish_version_result engine_all_failing = (\<lambda>n. (OLAP_ERR_OTHER (- 1), [77]))"
    by (simp_all add: engine_publish_third_time_def engine_all_failing_def)
  have h: "\<forall>j<2. fst (publish_version_result engine_publish_third_time j) \<noteq> OLAP_SUCCESS"
    by (simp add: engine_publish_third_time_def)
  from publish_version_retry
         [where eng = engine_publish_third_time and cfg = default_config and m = master_up
            and req = "mk_task TTaskType.PUBLISH_VERSION 5 None None" and st = "initial_state 0",
          THEN conjunct1, THEN spec, of 2]
       publish_version_retry
         [where eng = engine_all_failing and cfg = default_config and m = master_up
            and req = "mk_task TTaskType.PUBLISH_VERSION 5 None None" and st = "initial_state 0",
          THEN conjunct2, THEN conjunct1]
       r h
  show ?thesis by (simp add: mk_task_def initial_state_def numeral_3_eq_3 numeral_2_eq_2)
qed

subsection \<open>The finish RPC and the release that follows\<close>

text \<open>
  Claim C6. \<^verbatim>\<open>_finish_task\<close> makes at most \<^verbatim>\<open>TASK_FINISH_MAX_RETRY = 3\<close> RPC attempts. If
  the attempt number \<open>k\<close> is the first whose transport succeeds, the trace grows by \<open>k\<close>
  failed attempts, each followed by a sleep, and the successful attempt, and nothing
  follows it; if all three fail, it grows by three attempts, each followed by a sleep,
  and there is no fourth. The master's own status code is not an input of the loop.
  For every pool that takes tasks, whatever the engine and the master answer, the
  callback ends in one \<^verbatim>\<open>_remove_task_info\<close> of the task, applied to a state whose
  registry is the one the callback started with: the signature is released, after at
  most three finish RPC attempts.
\<close>

theorem finish_rpc_bounded_then_released:
  "(\<forall>k. k < 3 \<and> finish_task_answer m k = DORIS_SUCCESS
          \<and> (\<forall>j<k. finish_task_answer m j \<noteq> DORIS_SUCCESS)
      \<longrightarrow> trace (finish_task cfg m r st) =
            trace st @ concat (replicate k [FinishTaskRpc r, Sleep (unat (sleep_one_second cfg))])
              @ [FinishTaskRpc r])
   \<and> ((\<forall>j<3. finish_task_answer m j \<noteq> DORIS_SUCCESS)
      \<longrightarrow> trace (finish_task cfg m r st) =
            trace st @ concat (replicate 3 [FinishTaskRpc r, Sleep (unat (sleep_one_second cfg))]))
   \<and> length (filter is_finish_task_rpc (trace (finish_task cfg m r st)))
       \<le> length (filter is_finish_task_rpc (trace st)) + TASK_FINISH_MAX_RETRY
   \<and> (\<not> is_report_worker pool \<longrightarrow>
        (\<exists>st'. callback_execute cfg eng m pool req usr st =
                 remove_task_info (task_type req) (signature req)
                   (if uses_push_callback pool then usr else []) st'
              \<and> s_task_signatures st' = s_task_signatures st
              \<and> s_running_task_user_count st' = s_running_task_user_count st
              \<and> s_total_task_user_count st' = s_total_task_user_count st
              \<and> s_total_task_count st' = s_total_task_count st
              \<and> tasks st' = tasks st
              \<and> length (filter is_finish_task_rpc (trace st'))
                   \<le> length (filter is_finish_task_rpc (trace st)) + TASK_FINISH_MAX_RETRY)
        \<and> s_task_signatures (callback_execute cfg eng m pool req usr st) (task_type req)
            = s_task_signatures st (task_type req) - {signature req}
        \<and> length (filter is_finish_task_rpc (trace (callback_execute cfg eng m pool req usr st)))
            \<le> length (filter is_finish_task_rpc (trace st)) + TASK_FINISH_MAX_RETRY)"
proof (intro conjI allI impI)
  fix k
  assume "k < 3 \<and> finish_task_answer m k = DORIS_SUCCESS
          \<and> (\<forall>j<k. finish_task_answer m j \<noteq> DORIS_SUCCESS)"
  then show "trace (finish_task cfg m r st) =
            trace st @ concat (replicate k [FinishTaskRpc r, Sleep (unat (sleep_one_second cfg))])
              @ [FinishTaskRpc r]"
    using finish_task_first_success by blast
next
  assume "\<forall>j<3. finish_task_answer m j \<noteq> DORIS_SUCCESS"
  then show "trace (finish_task cfg m r st) =
            trace st @ concat (replicate 3 [FinishTaskRpc r, Sleep (unat (sleep_one_second cfg))])"
    by (rule finish_task_all_fail)
next
  show "length (filter is_finish_task_rpc (trace (finish_task cfg m r st)))
       \<le> length (filter is_finish_task_rpc (trace st)) + TASK_FINISH_MAX_RETRY"
    using finish_task_attempts[of cfg m r st] by (simp add: TASK_FINISH_MAX_RETRY_def)
next
  assume nr: "\<not> is_report_worker pool"
  from callback_execute_released[OF nr, of st req usr cfg eng m]
  obtain st' where s: "callback_execute cfg eng m pool req usr st =
                 remove_task_info (task_type req) (signature req)
                   (if uses_push_callback pool then usr else []) st'"
              "s_task_signatures st' = s_task_signatures st"
              "s_running_task_user_count st' = s_running_task_user_count st"
              "s_total_task_user_count st' = s_total_task_user_count st"
              "s_total_task_count st' = s_total_task_count st"
              "tasks st' = tasks st"
              "length (filter is_finish_task_rpc (trace st'))
                   \<le> length (filter is_finish_task_rpc (trace st)) + 3"
    unfolding released_by_def by blast
  then show "\<exists>st'. callback_execute cfg eng m pool req usr st =
                 remove_task_info (task_type req) (signature req)
                   (if uses_push_callback pool then usr else []) st'
              \<and> s_task_signatures st' = s_task_signatures st
              \<and> s_running_task_user_count st' = s_running_task_user_count st
              \<and> s_total_task_user_count st' = s_total_task_user_count st
              \<and> s_total_task_count st' = s_total_task_count st
              \<and> tasks st' = tasks st
              \<and> length (filter is_finish_task_rpc (trace st'))
                   \<le> length (filter is_finish_task_rpc (trace st)) + TASK_FINISH_MAX_RETRY"
    unfolding TASK_FINISH_MAX_RETRY_def by blast
  from s show "s_task_signatures (callback_execute cfg eng m pool req usr st) (task_type req)
            = s_task_signatures st (task_type req) - {signature req}"
    by simp
  from s show "length (filter is_finish_task_rpc (trace (callback_execute cfg eng m pool req usr st)))
            \<le> length (filter is_finish_task_rpc (trace st)) + TASK_FINISH_MAX_RETRY"
    by (simp add: TASK_FINISH_MAX_RETRY_def)
qed

theorem finish_rpc_bounded_then_released_witness:
  "finish_task_answer master_down 0 \<noteq> DORIS_SUCCESS
   \<and> finish_task_answer master_down 1 \<noteq> DORIS_SUCCESS
   \<and> finish_task_answer master_down 2 \<noteq> DORIS_SUCCESS
   \<and> trace (finish_task default_config master_down empty_finish_task_request (initial_state 0))
       = [FinishTaskRpc empty_finish_task_request, Sleep 1,
          FinishTaskRpc empty_finish_task_request, Sleep 1,
          FinishTaskRpc empty_finish_task_request, Sleep 1]
   \<and> finish_task_answer master_up 0 = DORIS_SUCCESS
   \<and> trace (finish_task default_config master_up empty_finish_task_request (initial_state 0))
       = [FinishTaskRpc empty_finish_task_request]
   \<and> \<not> is_report_worker CREATE_TABLE
   \<and> s_task_signatures
         (callback_execute default_config engine_all_ok master_down CREATE_TABLE
            (mk_task CREATE 1 None None) []
            (submit_task CREATE_TABLE (mk_task CREATE 1 None None) (initial_state 0)))
         CREATE
       = {}"
proof -
  have d: "finish_task_answer master_down = (\<lambda>n. DORIS_ERROR)"
    "finish_task_answer master_up = (\<lambda>n. DORIS_SUCCESS)"
    by (simp_all add: master_down_def master_up_def)
  have n: "\<not> is_report_worker CREATE_TABLE"
    by (simp add: is_report_worker_def)
  have s: "s_task_signatures
             (submit_task CREATE_TABLE (mk_task CREATE 1 None None) (initial_state 0)) CREATE
           = {1}"
    by (simp add: submit_task_def record_task_info_def initial_state_def mk_task_def Let_def)
  from finish_rpc_bounded_then_released
         [where m = master_down and cfg = default_config and r = empty_finish_task_request
            and st = "initial_state 0" and pool = CREATE_TABLE,
          THEN conjunct2, THEN conjunct1]
       finish_rpc_bounded_then_released
         [where m = master_up and cfg = default_config and r = empty_finish_task_request
            and st = "initial_state 0" and pool = CREATE_TABLE,
          THEN conjunct1, THEN spec, of 0]
       finish_rpc_bounded_then_released
         [where m = master_down and cfg = default_config and eng = engine_all_ok
            and req = "mk_task CREATE 1 None None" and usr = "[]"
            and st = "submit_task CREATE_TABLE (mk_task CREATE 1 None None) (initial_state 0)"
            and pool = CREATE_TABLE,
          THEN conjunct2, THEN conjunct2, THEN conjunct2]
       d n s
  show ?thesis by (simp add: default_config_def initial_state_def mk_task_def numeral_3_eq_3)
qed

subsection \<open>The report version\<close>

text \<open>
  Claim C1, as amended. The report version is incremented, by one, exactly by: the create
  callback when the engine's \<^verbatim>\<open>create_tablet\<close> succeeds; the alter callback when the task
  type is \<^verbatim>\<open>SCHEMA_CHANGE\<close> or \<^verbatim>\<open>ROLLUP\<close> and the engine's schema-change task succeeds; the
  push callback (pools \<^verbatim>\<open>PUSH\<close>, \<^verbatim>\<open>REALTIME_PUSH\<close>, \<^verbatim>\<open>DELETE\<close>) when the load status is
  \<^verbatim>\<open>DORIS_SUCCESS\<close>. Every other completion of a task, a submission, a worker taking a
  task, and a turn of each of the three report loops leave it as it is; the tablet
  report that is sent carries the current value and does not change it.
\<close>

theorem report_version_increments:
  "s_report_version (callback_execute cfg eng m pool req usr st) =
     s_report_version st +
       (if (pool = CREATE_TABLE \<and> create_tablet_status eng = OLAP_SUCCESS)
           \<or> (pool = ALTER_TABLE \<and> (task_type req = SCHEMA_CHANGE \<or> task_type req = ROLLUP)
                \<and> schema_change_status eng = OLAP_SUCCESS)
           \<or> (uses_push_callback pool \<and> batch_load_status eng = DORIS_SUCCESS)
        then 1 else 0)
   \<and> s_report_version (submit_task pool req st) = s_report_version st
   \<and> (\<forall>st1. worker_take cfg pool prio st = NoTask st1 \<longrightarrow> s_report_version st1 = s_report_version st)
   \<and> (\<forall>t u st1. worker_take cfg pool prio st = Picked t u st1
         \<longrightarrow> s_report_version st1 = s_report_version st)
   \<and> s_report_version (report_task_worker_turn cfg m st) = s_report_version st
   \<and> s_report_version (report_disk_state_worker_turn cfg m st) = s_report_version st
   \<and> s_report_version (report_tablet_worker_turn cfg eng m st) = s_report_version st
   \<and> (master_port m \<noteq> 0 \<and> report_all_tablets_info_status eng = OLAP_SUCCESS
       \<longrightarrow> trace (report_tablet_worker_turn cfg eng m st)
             = trace st @ [ReportRpc (TabletReport (s_report_version st))])"
proof (intro conjI allI impI)
  show "s_report_version (callback_execute cfg eng m pool req usr st) =
     s_report_version st +
       (if (pool = CREATE_TABLE \<and> create_tablet_status eng = OLAP_SUCCESS)
           \<or> (pool = ALTER_TABLE \<and> (task_type req = SCHEMA_CHANGE \<or> task_type req = ROLLUP)
                \<and> schema_change_status eng = OLAP_SUCCESS)
           \<or> (uses_push_callback pool \<and> batch_load_status eng = DORIS_SUCCESS)
        then 1 else 0)"
    using publish_version_loop_frame[of eng OLAP_SUCCESS "[]" st]
    by (cases pool)
      (simp_all add: uses_push_callback_def create_tablet_execute_def drop_tablet_execute_def
        push_execute_def publish_version_execute_def alter_tablet_execute_def alter_tablet_def
        clone_execute_def report_status_def clear_alter_task_execute_def
        clear_transaction_task_execute_def storage_medium_migrate_execute_def
        check_consistency_execute_def upload_execute_def download_execute_def
        make_snapshot_execute_def release_snapshot_execute_def move_dir_execute_def
        recover_tablet_execute_def Let_def case_prod_beta)
next
  show "s_report_version (submit_task pool req st) = s_report_version st"
    by (simp add: submit_task_def record_task_info_def Let_def)
next
  fix st1 assume "worker_take cfg pool prio st = NoTask st1"
  then show "s_report_version st1 = s_report_version st"
    by (auto simp: worker_take_def push_take_def pop_front_def get_next_task_index_def
        incr_running_def Let_def split: if_splits option.splits prod.splits list.splits)
next
  fix t u st1 assume "worker_take cfg pool prio st = Picked t u st1"
  then show "s_report_version st1 = s_report_version st"
    by (auto simp: worker_take_def push_take_def pop_front_def get_next_task_index_def
        incr_running_def Let_def split: if_splits option.splits prod.splits list.splits)
qed (simp_all add: report_task_worker_turn_def report_disk_state_worker_turn_def
      report_tablet_worker_turn_def Let_def)

theorem report_version_increments_witness:
  "s_report_version
     (callback_execute default_config engine_all_ok master_up CREATE_TABLE
        (mk_task CREATE 1 None None) [] (initial_state 100)) = 101
   \<and> s_report_version
     (callback_execute default_config engine_all_failing master_up CREATE_TABLE
        (mk_task CREATE 1 None None) [] (initial_state 100)) = 100
   \<and> s_report_version
     (callback_execute default_config engine_all_ok master_up TaskWorkerType.CLONE
        (mk_task TTaskType.CLONE 1 None None) [] (initial_state 100)) = 100
   \<and> master_port master_up \<noteq> 0
   \<and> report_all_tablets_info_status engine_all_ok = OLAP_SUCCESS
   \<and> trace (report_tablet_worker_turn default_config engine_all_ok master_up (initial_state 100))
       = [ReportRpc (TabletReport 100)]
   \<and> s_report_version
       (report_tablet_worker_turn default_config engine_all_ok master_up (initial_state 100))
       = 100"
  using report_version_increments
          [where cfg = default_config and eng = engine_all_ok and m = master_up
             and pool = CREATE_TABLE and req = "mk_task CREATE 1 None None" and usr = "[]"
             and st = "initial_state 100"]
        report_version_increments
          [where cfg = default_config and eng = engine_all_failing and m = master_up
             and pool = CREATE_TABLE and req = "mk_task CREATE 1 None None" and usr = "[]"
             and st = "initial_state 100"]
        report_version_increments
          [where cfg = default_config and eng = engine_all_ok and m = master_up
             and pool = TaskWorkerType.CLONE and req = "mk_task TTaskType.CLONE 1 None None"
             and usr = "[]" and st = "initial_state 100"]
  by (simp add: engine_all_ok_def engine_all_failing_def master_up_def initial_state_def
      uses_push_callback_def)

text \<open>
  The claim as first stated has the counter incremented on every tablet-report send.
  With the master known and the tablets collected, one turn of the tablet report loop
  sends the report, stamped 100, and the counter is still 100 afterwards, not 101.
\<close>

theorem tablet_report_does_not_increment:
  "trace (report_tablet_worker_turn default_config engine_all_ok master_up (initial_state 100))
     = [ReportRpc (TabletReport 100)]
   \<and> s_report_version
       (report_tablet_worker_turn default_config engine_all_ok master_up (initial_state 100))
       \<noteq> s_report_version (initial_state 100) + 1"
  by (simp add: report_tablet_worker_turn_def engine_all_ok_def master_up_def initial_state_def
      Let_def)

subsection \<open>The registry invariant\<close>

lemma registry_invI:
  assumes "\<And>pool. distinct (map task_key (tasks st pool))"
    "\<And>p1 p2. p1 \<noteq> p2 \<Longrightarrow> task_key ` set (tasks st p1) \<inter> task_key ` set (tasks st p2) = {}"
    "distinct (map flight_key fl)"
    "\<And>pool. task_key ` set (tasks st pool) \<inter> flight_key ` set fl = {}"
    "\<And>e. e \<in> set fl \<Longrightarrow> \<not> is_report_worker (fst e)"
    "\<And>ttype sig. sig \<in> s_task_signatures st ttype \<longleftrightarrow>
           (\<exists>pool. (ttype, sig) \<in> task_key ` set (tasks st pool))
           \<or> (ttype, sig) \<in> flight_key ` set fl"
    "s_total_task_count st TTaskType.PUSH = of_nat (card (s_task_signatures st TTaskType.PUSH))"
    "\<And>ttype. ttype \<noteq> TTaskType.PUSH \<Longrightarrow> s_total_task_count st ttype = 0"
  shows "registry_inv (st, fl)"
  unfolding registry_inv_def fst_conv snd_conv
  by (intro conjI allI impI ballI) (simp_all add: assms)

lemma registry_invD:
  assumes "registry_inv (st, fl)"
  shows "\<And>pool. distinct (map task_key (tasks st pool))"
    "\<And>p1 p2. p1 \<noteq> p2 \<Longrightarrow> task_key ` set (tasks st p1) \<inter> task_key ` set (tasks st p2) = {}"
    "distinct (map flight_key fl)"
    "\<And>pool. task_key ` set (tasks st pool) \<inter> flight_key ` set fl = {}"
    "\<And>e. e \<in> set fl \<Longrightarrow> \<not> is_report_worker (fst e)"
    "\<And>ttype sig. sig \<in> s_task_signatures st ttype \<longleftrightarrow>
           (\<exists>pool. (ttype, sig) \<in> task_key ` set (tasks st pool))
           \<or> (ttype, sig) \<in> flight_key ` set fl"
    "s_total_task_count st TTaskType.PUSH = of_nat (card (s_task_signatures st TTaskType.PUSH))"
    "\<And>ttype. ttype \<noteq> TTaskType.PUSH \<Longrightarrow> s_total_task_count st ttype = 0"
  using assms unfolding registry_inv_def fst_conv snd_conv by simp_all

lemma registry_inv_initial: "registry_inv (initial_state v, [])"
  by (simp add: registry_inv_def initial_state_def)

lemma remove_nth_set:
  assumes "distinct (map f xs)" "i < length xs"
  shows "f ` set (take i xs @ drop (Suc i) xs) = f ` set xs - {f (xs ! i)}"
proof -
  have xs: "xs = take i xs @ xs ! i # drop (Suc i) xs"
    using assms(2) by (rule id_take_nth_drop)
  from assms(1) have "distinct (map f (take i xs @ xs ! i # drop (Suc i) xs))"
    using xs by simp
  then have d: "f (xs ! i) \<notin> f ` set (take i xs @ drop (Suc i) xs)"
    by auto
  have "set xs = set (take i xs @ xs ! i # drop (Suc i) xs)"
    using xs by simp
  then have "f ` set xs = insert (f (xs ! i)) (f ` set (take i xs @ drop (Suc i) xs))"
    by simp
  with d show ?thesis by blast
qed

lemma remove_nth_distinct:
  assumes "distinct xs"
  shows "distinct (take i xs @ drop (Suc i) xs)"
proof -
  have "distinct (take i xs @ drop i xs)" using assms by simp
  then have "distinct (take i xs)" "distinct (drop i xs)" "set (take i xs) \<inter> set (drop i xs) = {}"
    by (simp_all only: distinct_append)
  moreover have "set (drop (Suc i) xs) \<subseteq> set (drop i xs)"
    by (simp add: set_drop_subset_set_drop)
  moreover have "distinct (drop (Suc i) xs)" using assms by simp
  ultimately show ?thesis by (simp only: distinct_append) blast
qed

lemma remove_nth_distinct_map:
  assumes "distinct (map f xs)"
  shows "distinct (map f (take i xs @ drop (Suc i) xs))"
  using remove_nth_distinct[OF assms, of i] by (simp add: take_map drop_map)

lemma inv_submit_new:
  assumes inv: "registry_inv (st, fl)"
    and new: "sig \<notin> s_task_signatures st ttype"
    and key: "task_key t = (ttype, sig)"
    and q: "tasks st' = (tasks st)(p := tasks st p @ [t])"
    and l: "s_task_signatures st' = (s_task_signatures st)(ttype := insert sig (s_task_signatures st ttype))"
    and c: "s_total_task_count st' =
              (if ttype = TTaskType.PUSH
               then (s_total_task_count st)(ttype := s_total_task_count st ttype + 1)
               else s_total_task_count st)"
  shows "registry_inv (st', fl)"
proof -
  note D = registry_invD[OF inv]
  from D(6)[of sig ttype] new have nk: "\<And>pool. (ttype, sig) \<notin> task_key ` set (tasks st pool)"
    "(ttype, sig) \<notin> flight_key ` set fl"
    by blast+
  have k: "\<And>pool. task_key ` set (tasks st' pool) =
      (if pool = p then insert (ttype, sig) (task_key ` set (tasks st p))
       else task_key ` set (tasks st pool))"
    by (simp add: q key)
  show ?thesis
  proof (rule registry_invI)
    show "distinct (map task_key (tasks st' pool))" for pool
      using D(1)[of pool] D(1)[of p] nk(1)[of p] by (simp add: q key)
    show "task_key ` set (tasks st' p1) \<inter> task_key ` set (tasks st' p2) = {}"
      if "p1 \<noteq> p2" for p1 p2
      using that D(2)[OF that] nk(1)[of p1] nk(1)[of p2] unfolding k
      by (cases "p1 = p"; cases "p2 = p") auto
    show "distinct (map flight_key fl)" by (rule D(3))
    show "task_key ` set (tasks st' pool) \<inter> flight_key ` set fl = {}" for pool
      using D(4)[of pool] D(4)[of p] nk(2) unfolding k by (simp split: if_splits)
    show "\<not> is_report_worker (fst e)" if "e \<in> set fl" for e by (rule D(5)[OF that])
    show "sig' \<in> s_task_signatures st' ty \<longleftrightarrow>
           (\<exists>pool. (ty, sig') \<in> task_key ` set (tasks st' pool))
           \<or> (ty, sig') \<in> flight_key ` set fl" for ty sig'
      using D(6)[of sig' ty] unfolding k l by (auto split: if_splits)
    have "card (insert sig (s_task_signatures st ttype)) = Suc (card (s_task_signatures st ttype))"
      using new by simp
    then show "s_total_task_count st' TTaskType.PUSH
         = of_nat (card (s_task_signatures st' TTaskType.PUSH))"
      using D(7) by (cases "ttype = TTaskType.PUSH") (simp_all add: l c)
    show "s_total_task_count st' ty = 0" if "ty \<noteq> TTaskType.PUSH" for ty
      using D(8)[OF that] that by (simp add: c)
  qed
qed

lemma inv_take:
  assumes inv: "registry_inv (st, fl)"
    and i: "i < length (tasks st p)"
    and nr: "\<not> is_report_worker p"
    and q: "tasks st' = (tasks st)(p := take i (tasks st p) @ drop (Suc i) (tasks st p))"
    and l: "s_task_signatures st' = s_task_signatures st"
    and c: "s_total_task_count st' = s_total_task_count st"
  shows "registry_inv (st', fl @ [(p, tasks st p ! i, u)])"
proof -
  let ?t = "tasks st p ! i"
  note D = registry_invD[OF inv]
  have mem: "task_key ?t \<in> task_key ` set (tasks st p)"
    using i by simp
  have k: "\<And>pool. task_key ` set (tasks st' pool) =
      (if pool = p then task_key ` set (tasks st p) - {task_key ?t}
       else task_key ` set (tasks st pool))"
    using remove_nth_set[OF D(1)[of p] i] by (simp add: q)
  have fk: "flight_key ` set (fl @ [(p, ?t, u)]) = insert (task_key ?t) (flight_key ` set fl)"
    by (simp add: flight_key_def)
  from D(4)[of p] mem have nf: "task_key ?t \<notin> flight_key ` set fl"
    by blast
  have np: "task_key ?t \<notin> task_key ` set (tasks st pool)" if "pool \<noteq> p" for pool
    using D(2)[OF that] mem by blast
  show ?thesis
  proof (rule registry_invI)
    show "distinct (map task_key (tasks st' pool))" for pool
      using D(1)[of pool] remove_nth_distinct_map[OF D(1)[of p], of i] by (simp add: q)
    show "task_key ` set (tasks st' p1) \<inter> task_key ` set (tasks st' p2) = {}"
      if "p1 \<noteq> p2" for p1 p2
      using D(2)[OF that] unfolding k by (cases "p1 = p"; cases "p2 = p") auto
    show "distinct (map flight_key (fl @ [(p, ?t, u)]))"
      using D(3) nf by (simp add: flight_key_def)
    show "task_key ` set (tasks st' pool) \<inter> flight_key ` set (fl @ [(p, ?t, u)]) = {}" for pool
      using D(4)[of pool] np[of pool] unfolding k fk by (cases "pool = p") auto
    show "\<not> is_report_worker (fst e)" if "e \<in> set (fl @ [(p, ?t, u)])" for e
      using that D(5)[of e] nr by auto
    show "sig' \<in> s_task_signatures st' ty \<longleftrightarrow>
           (\<exists>pool. (ty, sig') \<in> task_key ` set (tasks st' pool))
           \<or> (ty, sig') \<in> flight_key ` set (fl @ [(p, ?t, u)])" for ty sig'
    proof -
      have "(\<exists>pool. (ty, sig') \<in> task_key ` set (tasks st' pool))
              \<or> (ty, sig') \<in> insert (task_key ?t) (flight_key ` set fl)
            \<longleftrightarrow> (\<exists>pool. (ty, sig') \<in> task_key ` set (tasks st pool))
              \<or> (ty, sig') \<in> flight_key ` set fl"
      proof (cases "(ty, sig') = task_key ?t")
        case True
        with mem have "(ty, sig') \<in> task_key ` set (tasks st p)" by simp
        then have "\<exists>pool. (ty, sig') \<in> task_key ` set (tasks st pool)" ..
        with True show ?thesis by simp
      next
        case False
        then have "(ty, sig') \<in> task_key ` set (tasks st' pool)
                   \<longleftrightarrow> (ty, sig') \<in> task_key ` set (tasks st pool)" for pool
          unfolding k by simp
        with False show ?thesis by simp
      qed
      then show ?thesis using D(6)[of sig' ty] unfolding fk l by simp
    qed
    show "s_total_task_count st' TTaskType.PUSH
         = of_nat (card (s_task_signatures st' TTaskType.PUSH))"
      using D(7) by (simp add: l c)
    show "s_total_task_count st' ty = 0" if "ty \<noteq> TTaskType.PUSH" for ty
      using D(8)[OF that] by (simp add: c)
  qed
qed


lemma inv_complete:
  assumes inv: "registry_inv (st, fl)"
    and n: "n < length fl"
    and e: "fl ! n = (p, t, u)"
    and key: "task_key t = (ttype, sig)"
    and q: "tasks st' = tasks st"
    and l: "s_task_signatures st' =
              (s_task_signatures st)(ttype := s_task_signatures st ttype - {sig})"
    and c: "s_total_task_count st' =
              (if ttype = TTaskType.PUSH
               then (s_total_task_count st)(ttype := s_total_task_count st ttype - 1)
               else s_total_task_count st)"
  shows "registry_inv (st', take n fl @ drop (Suc n) fl)"
proof -
  let ?fl = "take n fl @ drop (Suc n) fl"
  note D = registry_invD[OF inv]
  have fkn: "flight_key (fl ! n) = (ttype, sig)"
    by (simp add: e flight_key_def key)
  have fk: "flight_key ` set ?fl = flight_key ` set fl - {(ttype, sig)}"
    using remove_nth_set[OF D(3) n] by (simp add: fkn)
  have mem: "(ttype, sig) \<in> flight_key ` set fl"
    using n fkn by (metis imageI nth_mem)
  have np: "(ttype, sig) \<notin> task_key ` set (tasks st pool)" for pool
    using D(4)[of pool] mem by blast
  have live: "sig \<in> s_task_signatures st ttype"
    using D(6)[of sig ttype] mem by simp
  have sub: "set ?fl \<subseteq> set fl"
    by (auto dest: in_set_takeD in_set_dropD)
  show ?thesis
  proof (rule registry_invI)
    show "distinct (map task_key (tasks st' pool))" for pool
      using D(1)[of pool] by (simp add: q)
    show "task_key ` set (tasks st' p1) \<inter> task_key ` set (tasks st' p2) = {}"
      if "p1 \<noteq> p2" for p1 p2
      using D(2)[OF that] by (simp add: q)
    show "distinct (map flight_key ?fl)"
      by (rule remove_nth_distinct_map[OF D(3)])
    show "task_key ` set (tasks st' pool) \<inter> flight_key ` set ?fl = {}" for pool
      using D(4)[of pool] unfolding fk q by blast
    show "\<not> is_report_worker (fst e)" if "e \<in> set ?fl" for e
      using that sub D(5)[of e] by blast
    show "sig' \<in> s_task_signatures st' ty \<longleftrightarrow>
           (\<exists>pool. (ty, sig') \<in> task_key ` set (tasks st' pool))
           \<or> (ty, sig') \<in> flight_key ` set ?fl" for ty sig'
    proof (cases "(ty, sig') = (ttype, sig)")
      case True
      then show ?thesis using np unfolding fk q l by simp
    next
      case False
      then have "sig' \<in> s_task_signatures st' ty \<longleftrightarrow> sig' \<in> s_task_signatures st ty"
        unfolding l by auto
      moreover from False have "(ty, sig') \<in> flight_key ` set ?fl
          \<longleftrightarrow> (ty, sig') \<in> flight_key ` set fl"
        unfolding fk by simp
      ultimately show ?thesis using D(6)[of sig' ty] by (simp add: q)
    qed
    show "s_total_task_count st' TTaskType.PUSH
         = of_nat (card (s_task_signatures st' TTaskType.PUSH))"
    proof (cases "ttype = TTaskType.PUSH")
      case True
      with live have "card (s_task_signatures st TTaskType.PUSH - {sig})
          = card (s_task_signatures st TTaskType.PUSH) - 1"
        and "1 \<le> card (s_task_signatures st TTaskType.PUSH)"
        by (simp_all add: card_gt_0_iff Suc_le_eq) blast
      then show ?thesis using D(7) True by (simp add: l c)
    next
      case False
      then show ?thesis using D(7) by (simp add: l c)
    qed
    show "s_total_task_count st' ty = 0" if "ty \<noteq> TTaskType.PUSH" for ty
      using D(8)[OF that] that by (simp add: c)
  qed
qed

lemma inv_same_registry:
  assumes "registry_inv (st, fl)" "tasks st' = tasks st"
    "s_task_signatures st' = s_task_signatures st" "s_total_task_count st' = s_total_task_count st"
  shows "registry_inv (st', fl)"
  using assms by (simp add: registry_inv_def)

lemma scan_tasks_bound:
  "fst (scan_tasks st tc prio q k u imp) = Some n \<Longrightarrow> k \<le> n \<and> n < k + length q"
proof (induction q arbitrary: k u imp)
  case Nil
  then show ?case by simp
next
  case (Cons t q)
  let ?u = "case resource_info t of Some u' \<Rightarrow> u' | None \<Rightarrow> u"
  from Cons.prems
  have "n = k \<or> fst (scan_tasks st tc prio q (Suc k) ?u imp) = Some n
        \<or> fst (scan_tasks st tc prio q (Suc k) ?u (insert ?u imp)) = Some n"
    by (simp add: Let_def split: if_splits)
  then show ?case
  proof (elim disjE)
    assume "n = k"
    then show ?thesis by simp
  next
    assume "fst (scan_tasks st tc prio q (Suc k) ?u imp) = Some n"
    from Cons.IH[OF this] show ?thesis by simp
  next
    assume "fst (scan_tasks st tc prio q (Suc k) ?u (insert ?u imp)) = Some n"
    from Cons.IH[OF this] show ?thesis by simp
  qed
qed

lemma get_next_task_index_cases:
  assumes "get_next_task_index tc q prio st = Some (idx, st1)"
  shows "(idx = - 1 \<and> st1 = st)
         \<or> (\<exists>n ty u. n < length q \<and> idx = word_of_nat n \<and> st1 = incr_running ty u st)"
proof -
  obtain r usr where sc: "scan_tasks st tc prio q 0 [] {} = (r, usr)" by (metis surj_pair)
  show ?thesis
  proof (cases r)
    case (Some n)
    with sc have "fst (scan_tasks st tc prio q 0 [] {}) = Some n" by simp
    from scan_tasks_bound[OF this] have "n < length q" by simp
    moreover from assms sc Some
    have "idx = word_of_nat n \<and> st1 = incr_running (task_type (q ! n)) usr st"
      by (simp add: get_next_task_index_def)
    ultimately show ?thesis by blast
  next
    case None
    show ?thesis
    proof (cases "prio = HIGH")
      case True
      with assms sc None show ?thesis by (simp add: get_next_task_index_def)
    next
      case False
      show ?thesis
      proof (cases q)
        case Nil
        with assms sc None False show ?thesis by (simp add: get_next_task_index_def)
      next
        case (Cons t0 rest)
        with assms sc None False
        have "idx = word_of_nat 0 \<and> st1 = incr_running (task_type t0)
                (case resource_info t0 of Some u \<Rightarrow> u | None \<Rightarrow> []) st"
          by (simp add: get_next_task_index_def)
        moreover have "0 < length q" using Cons by simp
        ultimately show ?thesis by blast
      qed
    qed
  qed
qed

lemma sint_word_of_nat_le:
  assumes "0 \<le> sint (word_of_nat n :: 32 word)"
  shows "nat (sint (word_of_nat n :: 32 word)) \<le> n"
proof -
  have "sint (word_of_nat n :: 32 word) \<le> uint (word_of_nat n :: 32 word)"
  proof -
    have "- (2 ^ 31) \<le> uint (word_of_nat n :: 32 word)"
      by (rule order_trans[of _ 0]) simp_all
    then show ?thesis
      by (simp add: sint_uint signed_take_bit_int_less_eq_self_iff)
  qed
  then have "nat (sint (word_of_nat n :: 32 word)) \<le> nat (uint (word_of_nat n :: 32 word))"
    by (rule nat_mono)
  also have "\<dots> = unat (word_of_nat n :: 32 word)"
    by (rule unat_eq_nat_uint[symmetric])
  also have "\<dots> \<le> n"
    by (metis le_unat_uoi linorder_le_cases)
  finally show ?thesis .
qed

lemma push_take_Picked:
  assumes "push_take cfg pool prio st = Picked t u st1"
  shows "\<exists>i<length (tasks st pool). t = tasks st pool ! i
           \<and> tasks st1 = (tasks st)(pool := take i (tasks st pool) @ drop (Suc i) (tasks st pool))
           \<and> s_task_signatures st1 = s_task_signatures st
           \<and> s_total_task_count st1 = s_total_task_count st"
proof -
  let ?q = "tasks st pool"
  let ?tc = "push_worker_count_normal_priority cfg + push_worker_count_high_priority cfg"
  from assms have ne: "?q \<noteq> []" by (simp add: push_take_def split: if_splits)
  from assms ne obtain idx st0 where g: "get_next_task_index ?tc ?q prio st = Some (idx, st0)"
    by (cases "get_next_task_index ?tc ?q prio st") (auto simp: push_take_def)
  from assms ne g have pos: "\<not> sint idx < 0"
    by (simp add: push_take_def split: if_splits)
  from assms ne g pos have p: "t = tasks st0 pool ! nat (sint idx)"
    "st1 = st0\<lparr>tasks := (tasks st0)
              (pool := take (nat (sint idx)) (tasks st0 pool)
                       @ drop (Suc (nat (sint idx))) (tasks st0 pool))\<rparr>"
    by (simp_all add: push_take_def Let_def)
  from get_next_task_index_cases[OF g] pos
  obtain n ty usr where n: "n < length ?q" "idx = word_of_nat n" "st0 = incr_running ty usr st"
    by auto
  from pos n(2) have "0 \<le> sint (word_of_nat n :: 32 word)" by simp
  from sint_word_of_nat_le[OF this] n(1) have il: "nat (sint idx) < length ?q"
    by (simp add: n(2))
  have "t = ?q ! nat (sint idx)
           \<and> tasks st1 = (tasks st)(pool := take (nat (sint idx)) ?q @ drop (Suc (nat (sint idx))) ?q)
           \<and> s_task_signatures st1 = s_task_signatures st
           \<and> s_total_task_count st1 = s_total_task_count st"
    by (simp add: p n(3))
  with il show ?thesis by blast
qed

lemma push_take_NoTask:
  assumes "push_take cfg pool prio st = NoTask st1"
  shows "tasks st1 = tasks st \<and> s_task_signatures st1 = s_task_signatures st
           \<and> s_total_task_count st1 = s_total_task_count st"
proof -
  let ?q = "tasks st pool"
  let ?tc = "push_worker_count_normal_priority cfg + push_worker_count_high_priority cfg"
  from assms have ne: "?q \<noteq> []" by (simp add: push_take_def split: if_splits)
  from assms ne obtain idx st0 where g: "get_next_task_index ?tc ?q prio st = Some (idx, st0)"
    by (cases "get_next_task_index ?tc ?q prio st") (auto simp: push_take_def)
  from assms ne g have s1: "st1 = emit (Sleep 1) (emit (Notify pool) st0)"
    by (simp add: push_take_def Let_def split: if_splits)
  from get_next_task_index_cases[OF g]
  have "tasks st0 = tasks st \<and> s_task_signatures st0 = s_task_signatures st
           \<and> s_total_task_count st0 = s_total_task_count st"
    by auto
  then show ?thesis by (simp add: s1)
qed

lemma worker_take_Picked:
  assumes "worker_take cfg pool prio st = Picked t u st1"
  shows "\<not> is_report_worker pool
         \<and> (\<exists>i<length (tasks st pool). t = tasks st pool ! i
           \<and> tasks st1 = (tasks st)(pool := take i (tasks st pool) @ drop (Suc i) (tasks st pool))
           \<and> s_task_signatures st1 = s_task_signatures st
           \<and> s_total_task_count st1 = s_total_task_count st)"
proof (cases "uses_push_callback pool")
  case True
  with assms have "push_take cfg pool prio st = Picked t u st1"
    by (simp add: worker_take_def)
  from push_take_Picked[OF this] True show ?thesis
    by (auto simp: uses_push_callback_def is_report_worker_def)
next
  case False
  with assms have nr: "\<not> is_report_worker pool" and p: "pop_front pool st = Picked t u st1"
    by (auto simp: worker_take_def split: if_splits)
  from p obtain rest where q0: "tasks st pool = t # rest"
    and s1: "st1 = st\<lparr>tasks := (tasks st)(pool := rest)\<rparr>"
    by (auto simp: pop_front_def split: list.splits)
  have "0 < length (tasks st pool) \<and> t = tasks st pool ! 0
      \<and> tasks st1 = (tasks st)(pool := take 0 (tasks st pool) @ drop (Suc 0) (tasks st pool))
      \<and> s_task_signatures st1 = s_task_signatures st
      \<and> s_total_task_count st1 = s_total_task_count st"
    by (simp add: q0 s1)
  with nr show ?thesis by blast
qed

lemma worker_take_NoTask:
  assumes "worker_take cfg pool prio st = NoTask st1"
  shows "tasks st1 = tasks st \<and> s_task_signatures st1 = s_task_signatures st
           \<and> s_total_task_count st1 = s_total_task_count st"
  using assms push_take_NoTask[of cfg pool prio st st1]
  by (auto simp: worker_take_def pop_front_def split: if_splits list.splits)

lemma callback_execute_registry:
  assumes "\<not> is_report_worker pool"
  shows "tasks (callback_execute cfg eng m pool req usr st) = tasks st"
    "s_task_signatures (callback_execute cfg eng m pool req usr st) =
       (s_task_signatures st)(task_type req := s_task_signatures st (task_type req) - {signature req})"
    "s_total_task_count (callback_execute cfg eng m pool req usr st) =
       (if task_type req = TTaskType.PUSH
        then (s_total_task_count st)(task_type req := s_total_task_count st (task_type req) - 1)
        else s_total_task_count st)"
proof -
  from callback_execute_released[OF assms, of st req usr cfg eng m]
  obtain st' where s: "callback_execute cfg eng m pool req usr st =
                 remove_task_info (task_type req) (signature req)
                   (if uses_push_callback pool then usr else []) st'"
              "s_task_signatures st' = s_task_signatures st"
              "s_total_task_count st' = s_total_task_count st"
              "tasks st' = tasks st"
    unfolding released_by_def by blast
  show "tasks (callback_execute cfg eng m pool req usr st) = tasks st"
    using s by simp
  show "s_task_signatures (callback_execute cfg eng m pool req usr st) =
       (s_task_signatures st)(task_type req := s_task_signatures st (task_type req) - {signature req})"
    using s by simp
  show "s_total_task_count (callback_execute cfg eng m pool req usr st) =
       (if task_type req = TTaskType.PUSH
        then (s_total_task_count st)(task_type req := s_total_task_count st (task_type req) - 1)
        else s_total_task_count st)"
    using s by (simp add: remove_task_info_def Let_def)
qed

lemma registry_inv_step:
  assumes "registry_inv s"
  shows "registry_inv (step cfg a s)"
proof -
  obtain st fl where s: "s = (st, fl)" by (cases s)
  note inv = assms[unfolded s]
  show ?thesis
  proof (cases a)
    case (Submit pool task)
    show ?thesis
    proof (cases "signature task \<in> s_task_signatures st (task_type task)")
      case True
      then have "submit_task pool task st = st"
        by (simp add: submit_task_def record_task_info_def)
      with inv show ?thesis by (simp add: s Submit)
    next
      case False
      have "registry_inv (submit_task pool task st, fl)"
        by (rule inv_submit_new[OF inv False, where t = task and p = pool])
          (use False in \<open>simp_all add: task_key_def submit_task_def record_task_info_def Let_def\<close>)
      then show ?thesis by (simp add: s Submit)
    qed
  next
    case (Take pool prio)
    show ?thesis
    proof (cases "worker_take cfg pool prio st")
      case Waiting
      with inv show ?thesis by (simp add: s Take)
    next
      case Undefined
      with inv show ?thesis by (simp add: s Take)
    next
      case (NoTask st1)
      from worker_take_NoTask[OF NoTask] have f: "tasks st1 = tasks st"
        "s_task_signatures st1 = s_task_signatures st"
        "s_total_task_count st1 = s_total_task_count st" by blast+
      have "registry_inv (st1, fl)"
        by (rule inv_same_registry[OF inv f])
      with NoTask show ?thesis by (simp add: s Take)
    next
      case (Picked t u st1)
      from worker_take_Picked[OF Picked] obtain i where i: "i < length (tasks st pool)"
        "t = tasks st pool ! i"
        "tasks st1 = (tasks st)(pool := take i (tasks st pool) @ drop (Suc i) (tasks st pool))"
        "s_task_signatures st1 = s_task_signatures st"
        "s_total_task_count st1 = s_total_task_count st"
        and nr: "\<not> is_report_worker pool" by blast
      from inv_take[OF inv i(1) nr i(3) i(4) i(5), of u] i(2) Picked
      show ?thesis by (simp add: s Take)
    qed
  next
    case (Complete n eng m)
    show ?thesis
    proof (cases "n < length fl")
      case False
      with inv show ?thesis by (simp add: s Complete)
    next
      case True
      obtain p t u where e: "fl ! n = (p, t, u)" by (metis prod_cases3)
      from True have "fl ! n \<in> set fl" by (rule nth_mem)
      from registry_invD(5)[OF inv this] e have nr: "\<not> is_report_worker p"
        by simp
      note R = callback_execute_registry[OF nr, of cfg eng m t u st]
      have "registry_inv (callback_execute cfg eng m p t u st, take n fl @ drop (Suc n) fl)"
        by (rule inv_complete[OF inv True e, where ttype = "task_type t" and sig = "signature t"])
          (simp_all add: task_key_def R)
      with True e show ?thesis by (simp add: s Complete)
    qed
  qed
qed

lemma registry_inv_run: "registry_inv s \<Longrightarrow> registry_inv (run cfg acts s)"
  by (induction acts arbitrary: s) (simp_all add: registry_inv_step)


subsection \<open>The divisor of the total rate\<close>

text \<open>
  What admission does guarantee. In every state the dispatcher reaches from its initial
  state by submissions, workers taking tasks and workers finishing them, in any
  interleaving: for every queued task of type \<^verbatim>\<open>PUSH\<close> the total count
  \<^verbatim>\<open>_s_total_task_count[PUSH]\<close> is not zero, as long as fewer than \<open>2\<^sup>3\<^sup>2\<close> signatures of type
  \<^verbatim>\<open>PUSH\<close> are registered (the counter is 32 bits wide); and for every other task type
  the total count is zero.
\<close>

theorem push_divisor_nonzero:
  assumes r: "run cfg acts (initial_state v, []) = (st, fl)"
  shows "(\<forall>pool task. task \<in> set (tasks st pool) \<and> task_type task = TTaskType.PUSH
            \<and> card (s_task_signatures st TTaskType.PUSH) < 2 ^ 32
          \<longrightarrow> s_total_task_count st (task_type task) \<noteq> 0)
       \<and> (\<forall>ttype. ttype \<noteq> TTaskType.PUSH \<longrightarrow> s_total_task_count st ttype = 0)"
proof -
  have inv: "registry_inv (st, fl)"
    using registry_inv_run[OF registry_inv_initial, of cfg acts v] r by simp
  note D = registry_invD[OF inv]
  show ?thesis
  proof (intro conjI allI impI)
    fix pool task
    assume a: "task \<in> set (tasks st pool) \<and> task_type task = TTaskType.PUSH
            \<and> card (s_task_signatures st TTaskType.PUSH) < 2 ^ 32"
    then have "(TTaskType.PUSH, signature task) \<in> task_key ` set (tasks st pool)"
      by (force simp: task_key_def)
    with D(6)[of "signature task" TTaskType.PUSH]
    have "signature task \<in> s_task_signatures st TTaskType.PUSH" by blast
    then have pos: "0 < card (s_task_signatures st TTaskType.PUSH)"
      by (auto simp: card_gt_0_iff)
    have "\<not> 2 ^ 32 dvd card (s_task_signatures st TTaskType.PUSH)"
      using pos a by (meson nat_dvd_not_less)
    then have "s_total_task_count st TTaskType.PUSH \<noteq> 0"
      unfolding D(7) by (simp add: word_of_nat_eq_0_iff)
    with a show "s_total_task_count st (task_type task) \<noteq> 0" by simp
  next
    fix ttype :: TTaskType
    assume "ttype \<noteq> TTaskType.PUSH"
    then show "s_total_task_count st ttype = 0" by (rule D(8))
  qed
qed

theorem push_divisor_nonzero_witness:
  "mk_task TTaskType.PUSH 1 None (Some ''A'') \<in> set (tasks (fst push_queued) TaskWorkerType.PUSH)
   \<and> task_type (mk_task TTaskType.PUSH 1 None (Some ''A'')) = TTaskType.PUSH
   \<and> card (s_task_signatures (fst push_queued) TTaskType.PUSH) < 2 ^ 32
   \<and> s_total_task_count (fst push_queued) TTaskType.PUSH \<noteq> 0
   \<and> TTaskType.DELETE \<noteq> TTaskType.PUSH
   \<and> s_total_task_count (fst push_queued) TTaskType.DELETE = 0"
proof -
  let ?t = "mk_task TTaskType.PUSH 1 None (Some ''A'')"
  have r: "run default_config [Submit TaskWorkerType.PUSH ?t] (initial_state 0, [])
             = (fst push_queued, snd push_queued)"
    by (simp add: push_queued_def)
  have q: "tasks (fst push_queued) TaskWorkerType.PUSH = [?t]"
    and l: "s_task_signatures (fst push_queued) TTaskType.PUSH = {1}"
    by (simp_all add: push_queued_def submit_task_def record_task_info_def initial_state_def
        mk_task_def emit_def Let_def)
  have m: "?t \<in> set (tasks (fst push_queued) TaskWorkerType.PUSH)"
    and ty: "task_type ?t = TTaskType.PUSH"
    and c: "card (s_task_signatures (fst push_queued) TTaskType.PUSH) < 2 ^ 32"
    by (simp_all add: q l mk_task_def)
  from push_divisor_nonzero[OF r] m ty c
  have "s_total_task_count (fst push_queued) (task_type ?t) \<noteq> 0"
    and "s_total_task_count (fst push_queued) TTaskType.DELETE = 0"
    by blast+
  with m ty c show ?thesis by simp
qed

text \<open>
  Claim C7 does not hold of the code. A task of type \<^verbatim>\<open>DELETE\<close> is submitted to the delete
  pool, whose workers run the push callback and hence the selector. The deque is not
  empty, and the divisor the selector reads for the task, the total count of the task's
  type, is zero: \<^verbatim>\<open>_record_task_info\<close> counts tasks of type \<^verbatim>\<open>PUSH\<close> only, while the
  selector divides by the total count of whatever type the task at hand has. The
  quotient it computes is zero by zero, a NaN.
\<close>

theorem delete_task_divisor_zero:
  "tasks (fst delete_queued) TaskWorkerType.DELETE = [mk_task TTaskType.DELETE 7 None None]
   \<and> uses_push_callback TaskWorkerType.DELETE
   \<and> s_total_task_count (fst delete_queued)
        (task_type (mk_task TTaskType.DELETE 7 None None)) = 0
   \<and> user_total_rate
        (s_total_task_user_count (fst delete_queued)
           (task_type (mk_task TTaskType.DELETE 7 None None)) [])
        (s_total_task_count (fst delete_queued)
           (task_type (mk_task TTaskType.DELETE 7 None None))) = NaN"
  by (simp add: delete_queued_def submit_task_def record_task_info_def initial_state_def
      mk_task_def emit_def Let_def uses_push_callback_def user_total_rate_def double_div_def)

subsection \<open>Counters after the pools have drained\<close>

text \<open>
  Claim C8 does not hold of the code. A task of type \<^verbatim>\<open>DELETE\<close> is submitted to the delete
  pool, taken by a \<^verbatim>\<open>NORMAL\<close> worker, executed and released. Afterwards the deque is empty,
  no worker holds a task and no signature of the type is registered, yet the running
  count of the type for the anonymous user is 1: the selector increments the running
  count for the type of whatever task it picks, and \<^verbatim>\<open>_remove_task_info\<close> decrements it
  for the type \<^verbatim>\<open>PUSH\<close> only.
\<close>

theorem drained_delete_task_leaves_running_count:
  "tasks (fst delete_drained) TaskWorkerType.DELETE = []
   \<and> snd delete_drained = []
   \<and> s_task_signatures (fst delete_drained) TTaskType.DELETE = {}
   \<and> s_running_task_user_count (fst delete_drained) TTaskType.DELETE [] = 1"
  by (simp add: delete_drained_def submit_task_def record_task_info_def worker_take_def
      uses_push_callback_def push_take_def get_next_task_index_def incr_running_def
      push_execute_def engine_all_ok_def master_up_def default_config_def mk_task_def
      initial_state_def emit_def finish_task_def finish_task_loop_unroll
      remove_task_info_def incr_report_version_def Let_def)

subsection \<open>The selector under a \<^verbatim>\<open>NORMAL\<close> worker\<close>

text \<open>
  Claim C4 does not hold of the code. With two workers, user \<open>A\<close> has one task running and
  the task with signature 2 queued at position 0; the task at position 1 has no
  \<^verbatim>\<open>resource_info\<close>, so its user is the anonymous one, who has nothing running and
  qualifies by the claim's rule. The selector, called by a \<^verbatim>\<open>NORMAL\<close> worker, finds \<open>A\<close> over
  its share (running rate 1, total rate 2/3), then looks at position 1 with its variable
  \<^verbatim>\<open>user\<close> still holding \<open>A\<close>, skips the task as improper, and falls back to position 0.
\<close>

theorem selector_passes_over_task_without_resource_info:
  "tasks (fst anonymous_behind_busy_user) TaskWorkerType.PUSH
     = [mk_task TTaskType.PUSH 2 None (Some ''A''), mk_task TTaskType.PUSH 3 None None]
   \<and> s_running_task_user_count (fst anonymous_behind_busy_user) TTaskType.PUSH ''A'' = 1
   \<and> s_running_task_user_count (fst anonymous_behind_busy_user) TTaskType.PUSH [] = 0
   \<and> \<not> fp_le (user_running_rate 1 2) (user_total_rate 2 3)
   \<and> map_option fst
        (get_next_task_index 2 (tasks (fst anonymous_behind_busy_user) TaskWorkerType.PUSH)
           NORMAL (fst anonymous_behind_busy_user))
       = Some 0"
proof -
  have rate: "\<not> fp_le (user_running_rate 1 2) (user_total_rate 2 3)"
    by code_simp
  have q: "tasks (fst anonymous_behind_busy_user) TaskWorkerType.PUSH
      = [mk_task TTaskType.PUSH 2 None (Some ''A''), mk_task TTaskType.PUSH 3 None None]"
    by (simp add: anonymous_behind_busy_user_def two_workers_def default_config_def
        submit_task_def record_task_info_def worker_take_def uses_push_callback_def
        push_take_def get_next_task_index_def incr_running_def mk_task_def initial_state_def
        emit_def Let_def)
  have c: "s_running_task_user_count (fst anonymous_behind_busy_user) TTaskType.PUSH ''A'' = 1"
    "s_running_task_user_count (fst anonymous_behind_busy_user) TTaskType.PUSH [] = 0"
    "s_total_task_user_count (fst anonymous_behind_busy_user) TTaskType.PUSH ''A'' = 2"
    "s_total_task_count (fst anonymous_behind_busy_user) TTaskType.PUSH = 3"
    by (simp_all add: anonymous_behind_busy_user_def two_workers_def default_config_def
        submit_task_def record_task_info_def worker_take_def uses_push_callback_def
        push_take_def get_next_task_index_def incr_running_def mk_task_def initial_state_def
        emit_def Let_def)
  have g: "map_option fst
        (get_next_task_index 2 (tasks (fst anonymous_behind_busy_user) TaskWorkerType.PUSH)
           NORMAL (fst anonymous_behind_busy_user))
       = Some 0"
    unfolding q using rate
    by (simp add: get_next_task_index_def mk_task_def Let_def c)
  show ?thesis by (intro conjI q c(1) c(2) rate g)
qed

end
